theory Spec2Isabelle
  imports Complex_Main "HOL-Library.Multiset" "HOL-Library.Char_ord" "HOL-Library.List_Lexorder"
begin

section \<open>The DUC validation notebook: IoU metric and sample-list builder\<close>

text \<open>
  The notebook \<^verbatim>\<open>duc-validation.ipynb\<close> holds two pieces of logic of its own: the class
  \<^verbatim>\<open>IoUMetric\<close> with the helper \<^verbatim>\<open>check_label_shapes\<close>, and the loop that builds the
  manifest \<^verbatim>\<open>val.lst\<close>. Both are embedded here as functions; exceptions are values of the
  type \<open>error\<close>, the metric object is a record that is passed in and returned.

  Numbers: the counters \<^verbatim>\<open>_tp\<close>, \<^verbatim>\<open>_denom\<close> and the value \<^verbatim>\<open>sum_metric\<close> are floating-point
  numbers in the notebook. The counters only ever hold sums of pixel counts, which float64
  represents exactly below \<open>2^53\<close>; the quotient and the sum that make the metric value are
  idealised here as exact arithmetic on \<open>real\<close>.
\<close>

subsection \<open>Errors and arrays\<close>

datatype dims = Len nat | Shape "nat list"

datatype error =
    ShapeMismatch dims dims   \<comment> \<open>the ValueError raised by \<^verbatim>\<open>check_label_shapes\<close>\<close>
  | BroadcastError nat nat    \<comment> \<open>the ValueError numpy raises for operands it cannot broadcast\<close>
  | AssertionError
  | IndexError
  | TypeError
  | ZeroDivisionError
  | AttributeError

text \<open>
  A numpy array of integers: its shape and its elements in row-major order (what
  \<^verbatim>\<open>a.flat\<close> iterates over). A well-formed array has as many elements as its shape says.
\<close>

record ndarray =
  shape :: "nat list"
  flat :: "int list"

definition nd_wf :: "ndarray \<Rightarrow> bool" where
  "nd_wf a = (length (flat a) = prod_list (shape a))"

text \<open>
  The two kinds of argument \<^verbatim>\<open>check_label_shapes\<close> receives: a Python list of arrays and a
  single array. \<^verbatim>\<open>len\<close> of an array is the length of its first axis and raises TypeError on
  an array without axes; a Python list has no attribute \<^verbatim>\<open>shape\<close>.
\<close>

datatype pyseq = PyList "ndarray list" | NDArray ndarray

fun py_len :: "pyseq \<Rightarrow> error + nat" where
  "py_len (PyList xs) = Inr (length xs)"
| "py_len (NDArray a) = (case shape a of [] \<Rightarrow> Inl TypeError | n # _ \<Rightarrow> Inr n)"

fun py_shape :: "pyseq \<Rightarrow> error + nat list" where
  "py_shape (PyList xs) = Inl AttributeError"
| "py_shape (NDArray a) = Inr (shape a)"

text \<open>
  \<^verbatim>\<open>def check_label_shapes(labels, preds, shape=0)\<close>: with \<^verbatim>\<open>shape == 0\<close> the lengths are
  compared, otherwise the shapes.
\<close>

definition check_label_shapes :: "pyseq \<Rightarrow> pyseq \<Rightarrow> int \<Rightarrow> error + unit" where
  "check_label_shapes labels preds shp =
     (if shp = 0 then
        (case py_len labels of Inl e \<Rightarrow> Inl e | Inr label_shape \<Rightarrow>
         (case py_len preds of Inl e \<Rightarrow> Inl e | Inr pred_shape \<Rightarrow>
            if label_shape \<noteq> pred_shape
            then Inl (ShapeMismatch (Len label_shape) (Len pred_shape))
            else Inr ()))
      else
        (case py_shape labels of Inl e \<Rightarrow> Inl e | Inr label_shape \<Rightarrow>
         (case py_shape preds of Inl e \<Rightarrow> Inl e | Inr pred_shape \<Rightarrow>
            if label_shape \<noteq> pred_shape
            then Inl (ShapeMismatch (Shape label_shape) (Shape pred_shape))
            else Inr ())))"

subsection \<open>The numpy operations of the class loop\<close>

text \<open>
  \<^verbatim>\<open>a.flat == j\<close> is a one-dimensional boolean array. \<^verbatim>\<open>np.logical_and\<close> and
  \<^verbatim>\<open>np.logical_or\<close> work elementwise on two such arrays after broadcasting: the lengths
  must be equal, or one of them is 1 and its element is repeated; anything else raises.
  \<^verbatim>\<open>.sum()\<close> of a boolean array counts its true elements.
\<close>

definition np_eq :: "int list \<Rightarrow> int \<Rightarrow> bool list" where
  "np_eq xs j = map (\<lambda>x. x = j) xs"

definition broadcast_len :: "nat \<Rightarrow> nat \<Rightarrow> error + nat" where
  "broadcast_len m n =
     (if m = n then Inr m
      else if m = 1 then Inr n
      else if n = 1 then Inr m
      else Inl (BroadcastError m n))"

definition broadcast_to :: "nat \<Rightarrow> 'a list \<Rightarrow> 'a list" where
  "broadcast_to n xs = (if length xs = n then xs else replicate n (hd xs))"

definition np_logical_and :: "bool list \<Rightarrow> bool list \<Rightarrow> error + bool list" where
  "np_logical_and a b =
     (case broadcast_len (length a) (length b) of
        Inl e \<Rightarrow> Inl e
      | Inr n \<Rightarrow> Inr (map2 (\<and>) (broadcast_to n a) (broadcast_to n b)))"

definition np_logical_or :: "bool list \<Rightarrow> bool list \<Rightarrow> error + bool list" where
  "np_logical_or a b =
     (case broadcast_len (length a) (length b) of
        Inl e \<Rightarrow> Inl e
      | Inr n \<Rightarrow> Inr (map2 (\<or>) (broadcast_to n a) (broadcast_to n b)))"

definition np_sum :: "bool list \<Rightarrow> int" where
  "np_sum bs = int (length (filter (\<lambda>b. b) bs))"

subsection \<open>The metric object\<close>

text \<open>
  The fields of an \<^verbatim>\<open>IoUMetric\<close>. \<^verbatim>\<open>sum_metric\<close> and \<^verbatim>\<open>num_inst\<close> are attributes that only
  \<^verbatim>\<open>update\<close> assigns; \<open>None\<close> stands for an attribute that has not been assigned yet.
\<close>

record IoUMetric =
  ignore_label :: int
  label_num :: nat
  tp :: "real list"
  denom :: "real list"
  sum_metric :: "real option"
  num_inst :: "nat option"

definition eps :: real where
  "eps = 1 / 1000000"

definition reset :: "IoUMetric \<Rightarrow> IoUMetric" where
  "reset m = m\<lparr>tp := replicate (label_num m) 0, denom := replicate (label_num m) 0\<rparr>"

text \<open>
  \<^verbatim>\<open>__init__\<close> stores the two parameters and calls the constructor of the base class, which
  calls \<^verbatim>\<open>self.reset()\<close>, that is the \<^verbatim>\<open>reset\<close> above.
\<close>

definition IoUMetric_init :: "int \<Rightarrow> nat \<Rightarrow> IoUMetric" where
  "IoUMetric_init ign n =
     reset \<lparr>ignore_label = ign, label_num = n, tp = [], denom = [],
            sum_metric = None, num_inst = None\<rparr>"

text \<open>
  One class \<open>j\<close> of one sample: the counts \<^verbatim>\<open>tp\<close> and \<^verbatim>\<open>denom\<close> of lines 183 to 186.
\<close>

definition class_counts :: "int \<Rightarrow> int list \<Rightarrow> int list \<Rightarrow> int \<Rightarrow> error + (int \<times> int)" where
  "class_counts ign pred_flat label_flat j =
     (let pred_cur = np_eq pred_flat j;
          gt_cur = np_eq label_flat j
      in case np_logical_and pred_cur gt_cur of Inl e \<Rightarrow> Inl e | Inr both \<Rightarrow>
         (case np_logical_or pred_cur gt_cur of Inl e \<Rightarrow> Inl e | Inr either \<Rightarrow>
          (case np_logical_and pred_cur (np_eq label_flat ign) of Inl e \<Rightarrow> Inl e | Inr ignored \<Rightarrow>
             Inr (np_sum both, np_sum either - np_sum ignored))))"

text \<open>
  The loop \<^verbatim>\<open>for j in range(self._label_num)\<close>, over the list of the classes still to do,
  with the running \<^verbatim>\<open>iou\<close>. An index outside \<^verbatim>\<open>_tp\<close> or \<^verbatim>\<open>_denom\<close> raises IndexError.
\<close>

fun class_loop :: "IoUMetric \<Rightarrow> int list \<Rightarrow> int list \<Rightarrow> nat list \<Rightarrow> real \<Rightarrow> error + (IoUMetric \<times> real)" where
  "class_loop m pred_flat label_flat [] iou = Inr (m, iou)"
| "class_loop m pred_flat label_flat (j # js) iou =
     (case class_counts (ignore_label m) pred_flat label_flat (int j) of
        Inl e \<Rightarrow> Inl e
      | Inr (t, d) \<Rightarrow>
          if \<not> t \<le> d then Inl AssertionError
          else if \<not> j < length (tp m) then Inl IndexError
          else let m1 = m\<lparr>tp := (tp m)[j := tp m ! j + real_of_int t]\<rparr> in
            if \<not> j < length (denom m1) then Inl IndexError
            else let m2 = m1\<lparr>denom := (denom m1)[j := denom m1 ! j + real_of_int d]\<rparr> in
              class_loop m2 pred_flat label_flat js (iou + tp m2 ! j / (denom m2 ! j + eps)))"

text \<open>
  The body of \<^verbatim>\<open>for i in range(len(labels))\<close> for one pair: \<open>label\<close> is
  \<^verbatim>\<open>labels[i].asnumpy().astype('int32')\<close> and \<open>pred_label\<close> is
  \<^verbatim>\<open>argmax_channel(preds[i]).asnumpy().astype('int32')\<close>; the model receives the predictions
  in this derived form. \<^verbatim>\<open>iou /= self._label_num\<close> divides by zero when there is no class.
\<close>

definition update_sample :: "IoUMetric \<Rightarrow> ndarray \<Rightarrow> ndarray \<Rightarrow> error + IoUMetric" where
  "update_sample m label pred_label =
     (case check_label_shapes (NDArray label) (NDArray pred_label) 0 of
        Inl e \<Rightarrow> Inl e
      | Inr _ \<Rightarrow>
         (case class_loop m (flat pred_label) (flat label) [0..<label_num m] 0 of
            Inl e \<Rightarrow> Inl e
          | Inr (m', iou) \<Rightarrow>
              if label_num m = 0 then Inl ZeroDivisionError
              else Inr (m'\<lparr>sum_metric := Some (iou / real (label_num m)),
                           num_inst := Some 1\<rparr>)))"

text \<open>
  The loop over the samples. After the check of the two lengths, \<^verbatim>\<open>labels[i]\<close> and
  \<^verbatim>\<open>preds[i]\<close> for \<open>i\<close> in \<^verbatim>\<open>range(len(labels))\<close> are the pairs of \<open>zip labels preds\<close>.
  An exception leaves \<^verbatim>\<open>update\<close> and, the driver having no handler, ends the run.
\<close>

fun update_loop :: "IoUMetric \<Rightarrow> (ndarray \<times> ndarray) list \<Rightarrow> error + IoUMetric" where
  "update_loop m [] = Inr m"
| "update_loop m ((label, pred_label) # rest) =
     (case update_sample m label pred_label of
        Inl e \<Rightarrow> Inl e
      | Inr m' \<Rightarrow> update_loop m' rest)"

definition update :: "IoUMetric \<Rightarrow> ndarray list \<Rightarrow> ndarray list \<Rightarrow> error + IoUMetric" where
  "update m labels preds =
     (case check_label_shapes (PyList labels) (PyList preds) 0 of
        Inl e \<Rightarrow> Inl e
      | Inr _ \<Rightarrow> update_loop m (zip labels preds))"

text \<open>
  Modelled from the spec: \<^verbatim>\<open>get\<close> is inherited from the metric base class of the library,
  whose source is not in the repository. The spec has "returns the name and the latest
  computed mean value": the value is \<^verbatim>\<open>sum_metric / num_inst\<close>, not-a-number when
  \<^verbatim>\<open>num_inst\<close> is 0; reading an attribute that was never assigned raises AttributeError.
  \<open>get\<close> is the value component, which the notebook prints as \<^verbatim>\<open>metric.get()[1]\<close>.
\<close>

datatype metric_value = NaN | Num real

definition get :: "IoUMetric \<Rightarrow> error + metric_value" where
  "get m =
     (case num_inst m of
        None \<Rightarrow> Inl AttributeError
      | Some n \<Rightarrow>
          if n = 0 then Inr NaN
          else (case sum_metric m of
                  None \<Rightarrow> Inl AttributeError
                | Some s \<Rightarrow> Inr (Num (s / real n))))"

text \<open>
  The driver loop of the notebook, as far as the metric goes: one \<^verbatim>\<open>update\<close> per batch, in
  the order of the batches; a batch is the pair of the list of labels and the list of
  predictions.
\<close>

fun run :: "IoUMetric \<Rightarrow> (ndarray list \<times> ndarray list) list \<Rightarrow> error + IoUMetric" where
  "run m [] = Inr m"
| "run m ((labels, preds) # batches) =
     (case update m labels preds of
        Inl e \<Rightarrow> Inl e
      | Inr m' \<Rightarrow> run m' batches)"

subsection \<open>The sample-list builder\<close>

text \<open>
  \<^verbatim>\<open>s.replace(old, new)\<close> of Python: every occurrence of \<open>old\<close>, found from left to right
  without overlap, becomes \<open>new\<close>; an empty \<open>old\<close> matches before every character and at
  the end.
\<close>

function replace :: "string \<Rightarrow> string \<Rightarrow> string \<Rightarrow> string" where
  "replace s old new =
     (if old = [] then new @ concat (map (\<lambda>c. c # new) s)
      else if s = [] then []
      else if take (length old) s = old then new @ replace (drop (length old) s) old new
      else hd s # replace (tl s) old new)"
  by pat_completeness auto

termination
  by (relation "measure (\<lambda>(s, old, new). length s)") auto

declare replace.simps [simp del]

text \<open>The label path derived from an image path (line 125).\<close>

definition label_path :: "string \<Rightarrow> string \<Rightarrow> string \<Rightarrow> string" where
  "label_path data_dir label_dir p =
     replace (replace p data_dir label_dir) ''leftImg8bit'' ''gtFine_labelIds''"

text \<open>\<^verbatim>\<open>str(n)\<close> for a non-negative integer: its decimal digits.\<close>

definition digit :: "nat \<Rightarrow> char" where
  "digit d = ''0123456789'' ! d"

fun str_nat :: "nat \<Rightarrow> string" where
  "str_nat n = (if n < 10 then [digit n] else str_nat (n div 10) @ [digit (n mod 10)])"

declare str_nat.simps [simp del]

text \<open>
  The inner loop \<^verbatim>\<open>for i in range(1, 8)\<close> appends one record per \<open>i\<close>; \<open>idx\<close> is
  \<^verbatim>\<open>str(index)\<close>.
\<close>

fun crop_loop :: "string \<Rightarrow> string \<Rightarrow> string \<Rightarrow> nat list \<Rightarrow> string list list \<Rightarrow> string list list" where
  "crop_loop idx p l [] val_lst = val_lst"
| "crop_loop idx p l (i # is) val_lst =
     crop_loop idx p l is (val_lst @ [[idx, p, l, ''512'', str_nat (256 * i)]])"

text \<open>
  The outer loop over the sorted image paths, with the state \<^verbatim>\<open>(index, val_lst)\<close>.
  \<open>isfile\<close> is \<^verbatim>\<open>os.path.isfile\<close>, the state of the disk.
\<close>

fun image_loop :: "(string \<Rightarrow> bool) \<Rightarrow> string \<Rightarrow> string \<Rightarrow> string list \<Rightarrow> nat \<times> string list list \<Rightarrow> nat \<times> string list list" where
  "image_loop isfile data_dir label_dir [] (index, val_lst) = (index, val_lst)"
| "image_loop isfile data_dir label_dir (p # ps) (index, val_lst) =
     (let l = label_path data_dir label_dir p
      in if isfile l
         then image_loop isfile data_dir label_dir ps
                (index + 1, crop_loop (str_nat (index + 1)) p l [1..<8] val_lst)
         else image_loop isfile data_dir label_dir ps (index, val_lst))"

text \<open>
  \<open>globbed\<close> is what \<^verbatim>\<open>glob.glob\<close> returned, in any order; \<^verbatim>\<open>all_images.sort()\<close> sorts the
  paths as strings.
\<close>

definition build_val_lst :: "(string \<Rightarrow> bool) \<Rightarrow> string \<Rightarrow> string \<Rightarrow> string list \<Rightarrow> string list list" where
  "build_val_lst isfile data_dir label_dir globbed =
     snd (image_loop isfile data_dir label_dir (sort globbed) (0, []))"

text \<open>
  \<^verbatim>\<open>'\t'.join(line)\<close> and the loop that prints every record to \<^verbatim>\<open>val.lst\<close>; \<^verbatim>\<open>print\<close> ends
  each line with a newline.
\<close>

fun join :: "string \<Rightarrow> string list \<Rightarrow> string" where
  "join sep [] = []"
| "join sep [x] = x"
| "join sep (x # y # ys) = x @ sep @ join sep (y # ys)"

definition write_val_lst :: "string list list \<Rightarrow> string" where
  "write_val_lst val_lst = concat (map (\<lambda>line. join [CHR 0x09] line @ [CHR 0x0A]) val_lst)"

subsection \<open>Notions used to state the properties\<close>

text \<open>
  The pairs (predicted class, label) of the pixels that the elementwise operations of one
  sample see: the two flat arrays after broadcasting.
\<close>

definition pixel_pairs :: "int list \<Rightarrow> int list \<Rightarrow> (int \<times> int) list" where
  "pixel_pairs pred_flat label_flat =
     (case broadcast_len (length pred_flat) (length label_flat) of
        Inl e \<Rightarrow> []
      | Inr n \<Rightarrow> zip (broadcast_to n pred_flat) (broadcast_to n label_flat))"

definition count_where :: "('a \<Rightarrow> bool) \<Rightarrow> 'a list \<Rightarrow> int" where
  "count_where P xs = int (length (filter P xs))"

text \<open>
  The counts \<^verbatim>\<open>tp\<close> and \<^verbatim>\<open>denom\<close> that the code computes for class \<open>j\<close> of a sample
  (the pair of the label array and the prediction array).
\<close>

definition sample_tp :: "int \<Rightarrow> ndarray \<times> ndarray \<Rightarrow> nat \<Rightarrow> real" where
  "sample_tp ign s j =
     (case class_counts ign (flat (snd s)) (flat (fst s)) (int j) of
        Inl e \<Rightarrow> 0 | Inr (t, d) \<Rightarrow> real_of_int t)"

definition sample_denom :: "int \<Rightarrow> ndarray \<times> ndarray \<Rightarrow> nat \<Rightarrow> real" where
  "sample_denom ign s j =
     (case class_counts ign (flat (snd s)) (flat (fst s)) (int j) of
        Inl e \<Rightarrow> 0 | Inr (t, d) \<Rightarrow> real_of_int d)"

text \<open>All samples of a sequence of batches, in the order in which they are processed.\<close>

definition samples :: "(ndarray list \<times> ndarray list) list \<Rightarrow> (ndarray \<times> ndarray) list" where
  "samples batches = concat (map (\<lambda>(labels, preds). zip labels preds) batches)"

text \<open>
  The mean over the classes of \<open>running_tp[j] / (running_denom[j] + \<epsilon>)\<close>, and the term
  of one class in it.
\<close>

definition mean_iou :: "nat \<Rightarrow> real list \<Rightarrow> real list \<Rightarrow> real" where
  "mean_iou n tps dens = (\<Sum>j\<leftarrow>[0..<n]. tps ! j / (dens ! j + eps)) / real n"

definition contribution :: "IoUMetric \<Rightarrow> nat \<Rightarrow> real" where
  "contribution m j = tp m ! j / (denom m ! j + eps)"

text \<open>The stored value is the mean computed from the counters now held.\<close>

definition synced :: "IoUMetric \<Rightarrow> bool" where
  "synced m = (sum_metric m = Some (mean_iou (label_num m) (tp m) (denom m)) \<and> num_inst m = Some 1)"

text \<open>
  What decides whether \<^verbatim>\<open>update\<close> raises, apart from its arguments: the two parameters and
  the lengths of the two counter lists.
\<close>

definition same_frame :: "IoUMetric \<Rightarrow> IoUMetric \<Rightarrow> bool" where
  "same_frame m m' =
     (ignore_label m = ignore_label m' \<and> label_num m = label_num m' \<and>
      length (tp m) = length (tp m') \<and> length (denom m) = length (denom m'))"

text \<open>
  The prediction of a sample equals its ground truth on every pixel that is not labelled
  with the ignore label.
\<close>

definition agrees :: "int \<Rightarrow> ndarray \<times> ndarray \<Rightarrow> bool" where
  "agrees ign s = list_all2 (\<lambda>x y. y \<noteq> ign \<longrightarrow> x = y) (flat (snd s)) (flat (fst s))"

text \<open>The number of pixels of a sample whose ground-truth label is the class \<open>j\<close>.\<close>

definition labelled :: "nat \<Rightarrow> ndarray \<times> ndarray \<Rightarrow> nat" where
  "labelled j s = length (filter (\<lambda>y. y = int j) (flat (fst s)))"

text \<open>
  The images whose derived label path exists, in sorted order.
\<close>

definition matched :: "(string \<Rightarrow> bool) \<Rightarrow> string \<Rightarrow> string \<Rightarrow> string list \<Rightarrow> string list" where
  "matched isfile data_dir label_dir globbed =
     filter (\<lambda>p. isfile (label_path data_dir label_dir p)) (sort globbed)"

definition records_of :: "string \<Rightarrow> string \<Rightarrow> nat \<times> string \<Rightarrow> string list list" where
  "records_of data_dir label_dir ip =
     map (\<lambda>k. [str_nat (fst ip), snd ip, label_path data_dir label_dir (snd ip), ''512'', str_nat (256 * k)])
       [1..<8]"

subsection \<open>Concrete inputs\<close>

definition px :: "int \<Rightarrow> ndarray" where "px v = \<lparr>shape = [1], flat = [v]\<rparr>"

definition lab3 :: ndarray where "lab3 = \<lparr>shape = [3], flat = [0, 1, 255]\<rparr>"

definition prd3 :: ndarray where "prd3 = \<lparr>shape = [3], flat = [0, 1, 7]\<rparr>"

definition col2 :: ndarray where "col2 = \<lparr>shape = [2, 1], flat = [0, 1]\<rparr>"

definition vec2 :: ndarray where "vec2 = \<lparr>shape = [2], flat = [0, 1]\<rparr>"

definition two_batches :: "(ndarray list \<times> ndarray list) list" where
  "two_batches = [([px 0], [px 0]), ([], []), ([px 1, px 255], [px 1, px 3])]"

definition regrouped :: "(ndarray list \<times> ndarray list) list" where
  "regrouped = [([px 255, px 1], [px 3, px 1]), ([px 0], [px 0])]"

definition after_first_pass :: IoUMetric where
  "after_first_pass =
     \<lparr>ignore_label = 255, label_num = 19, tp = 1 # replicate 18 0, denom = 1 # replicate 18 0,
      sum_metric = Some (1000000 / 19000019), num_inst = Some 1\<rparr>"

definition two_classes_hit :: IoUMetric where
  "two_classes_hit =
     \<lparr>ignore_label = 255, label_num = 19, tp = 1 # 1 # replicate 17 0, denom = 1 # 1 # replicate 17 0,
      sum_metric = Some (2000000 / 19000019), num_inst = Some 1\<rparr>"

definition all19 :: ndarray where
  "all19 = \<lparr>shape = [19], flat = map int [0..<19]\<rparr>"

definition all_classes_hit :: IoUMetric where
  "all_classes_hit =
     \<lparr>ignore_label = 255, label_num = 19, tp = replicate 19 1, denom = replicate 19 1,
      sum_metric = Some (1000000 / 1000001), num_inst = Some 1\<rparr>"

definition demo_isfile :: "string \<Rightarrow> bool" where
  "demo_isfile l = (l = ''lab/x/a_gtFine_labelIds.png'')"

definition demo_glob :: "string list" where
  "demo_glob = [''img/x/b_leftImg8bit.png'', ''img/x/a_leftImg8bit.png'']"


section \<open>Auxiliary facts\<close>

lemma pixel_pairs_same_length:
  "length p = length l \<Longrightarrow> pixel_pairs p l = zip p l"
  by (simp add: pixel_pairs_def broadcast_len_def broadcast_to_def)

lemma broadcast_to_map:
  "length xs = n \<or> length xs = 1 \<Longrightarrow> broadcast_to n (map f xs) = map f (broadcast_to n xs)"
  by (cases xs) (auto simp: broadcast_to_def)

lemma broadcast_len_cases:
  "broadcast_len a b = Inr n \<Longrightarrow> (a = n \<or> a = 1) \<and> (b = n \<or> b = 1)"
  by (auto simp: broadcast_len_def split: if_splits)

lemma length_broadcast_to:
  "length xs = n \<or> length xs = 1 \<Longrightarrow> length (broadcast_to n xs) = n"
  by (auto simp: broadcast_to_def)

lemma np_sum_map2:
  "np_sum (map2 f (map g xs) (map h ys)) = count_where (\<lambda>(x, y). f (g x) (h y)) (zip xs ys)"
proof -
  have "map2 f (map g xs) (map h ys) = map (\<lambda>(x, y). f (g x) (h y)) (zip xs ys)"
    by (simp add: zip_map_map split_def)
  then show ?thesis
    by (simp add: np_sum_def count_where_def filter_map o_def split_def)
qed

lemma np_logical_and_eq:
  assumes "broadcast_len (length p) (length l) = Inr n"
  shows "np_logical_and (np_eq p j) (np_eq l k) =
           Inr (map2 (\<and>) (map (\<lambda>x. x = j) (broadcast_to n p)) (map (\<lambda>y. y = k) (broadcast_to n l)))"
  using broadcast_len_cases[OF assms] assms
  by (simp add: np_logical_and_def np_eq_def broadcast_to_map)

lemma np_logical_or_eq:
  assumes "broadcast_len (length p) (length l) = Inr n"
  shows "np_logical_or (np_eq p j) (np_eq l k) =
           Inr (map2 (\<or>) (map (\<lambda>x. x = j) (broadcast_to n p)) (map (\<lambda>y. y = k) (broadcast_to n l)))"
  using broadcast_len_cases[OF assms] assms
  by (simp add: np_logical_or_def np_eq_def broadcast_to_map)

lemma class_counts_Inr:
  assumes "broadcast_len (length p) (length l) = Inr n"
  shows "class_counts ign p l j =
           Inr (count_where (\<lambda>(x, y). x = j \<and> y = j) (pixel_pairs p l),
                count_where (\<lambda>(x, y). x = j \<or> y = j) (pixel_pairs p l)
                  - count_where (\<lambda>(x, y). x = j \<and> y = ign) (pixel_pairs p l))"
  using assms
  by (simp add: class_counts_def np_logical_and_eq[OF assms] np_logical_or_eq[OF assms]
        np_sum_map2 pixel_pairs_def)

lemma class_counts_Inl:
  assumes "broadcast_len (length p) (length l) = Inl e"
  shows "class_counts ign p l j = Inl e"
  using assms by (simp add: class_counts_def np_logical_and_def np_eq_def)

lemma count_tp_le:
  assumes "j \<noteq> ign"
  shows "count_where (\<lambda>(x, y). x = j \<and> y = j) ps + count_where (\<lambda>(x, y). x = j \<and> y = ign) ps
           \<le> count_where (\<lambda>(x, y). x = j \<or> y = j) (ps :: (int \<times> int) list)"
  using assms by (induction ps) (auto simp: count_where_def)

lemma count_denom_eq:
  assumes "j \<noteq> ign"
  shows "count_where (\<lambda>(x, y). x = j \<or> y = j) ps - count_where (\<lambda>(x, y). x = j \<and> y = ign) ps
           = count_where (\<lambda>(x, y). y \<noteq> ign \<and> (x = j \<or> y = j)) (ps :: (int \<times> int) list)"
  using assms by (induction ps) (auto simp: count_where_def)

lemma class_counts_le:
  assumes "class_counts ign p l j = Inr (t, d)" and "j \<noteq> ign"
  shows "t \<le> d"
proof (cases "broadcast_len (length p) (length l)")
  case (Inl e)
  with assms class_counts_Inl show ?thesis by fastforce
next
  case (Inr n)
  from class_counts_Inr[OF Inr, of ign j] assms(1) count_tp_le[OF assms(2), of "pixel_pairs p l"]
  show ?thesis by auto
qed

lemma class_loop_Cons_Inr:
  assumes "class_loop m p l (j # js) iou = Inr r"
  obtains t d where
    "class_counts (ignore_label m) p l (int j) = Inr (t, d)" and "t \<le> d"
    and "j < length (tp m)" and "j < length (denom m)"
    and "class_loop (m\<lparr>tp := (tp m)[j := tp m ! j + real_of_int t],
                        denom := (denom m)[j := denom m ! j + real_of_int d]\<rparr>) p l js
           (iou + (tp m ! j + real_of_int t) / (denom m ! j + real_of_int d + eps)) = Inr r"
  using assms by (auto split: sum.splits prod.splits if_splits simp: Let_def)

lemma class_loop_frame:
  "class_loop m p l js iou = Inr (m', iou') \<Longrightarrow>
     ignore_label m' = ignore_label m \<and> label_num m' = label_num m \<and>
     sum_metric m' = sum_metric m \<and> num_inst m' = num_inst m \<and>
     length (tp m') = length (tp m) \<and> length (denom m') = length (denom m)"
proof (induction js arbitrary: m iou)
  case Nil
  then show ?case by simp
next
  case (Cons j js)
  from Cons.prems obtain t d where
    rest: "class_loop (m\<lparr>tp := (tp m)[j := tp m ! j + real_of_int t],
                        denom := (denom m)[j := denom m ! j + real_of_int d]\<rparr>) p l js
           (iou + (tp m ! j + real_of_int t) / (denom m ! j + real_of_int d + eps)) = Inr (m', iou')"
    by (rule class_loop_Cons_Inr)
  from Cons.IH[OF rest] show ?case by simp
qed

lemma class_loop_in_range:
  assumes "class_loop m p l js iou = Inr (m', iou')"
  shows "\<forall>j\<in>set js. j < length (tp m) \<and> j < length (denom m)"
  using assms
proof (induction js arbitrary: m iou)
  case Nil
  then show ?case by simp
next
  case (Cons j js)
  from Cons.prems obtain t d where
    jt: "j < length (tp m)" and jd: "j < length (denom m)" and
    rest: "class_loop (m\<lparr>tp := (tp m)[j := tp m ! j + real_of_int t],
                        denom := (denom m)[j := denom m ! j + real_of_int d]\<rparr>) p l js
           (iou + (tp m ! j + real_of_int t) / (denom m ! j + real_of_int d + eps)) = Inr (m', iou')"
    by (rule class_loop_Cons_Inr)
  from Cons.IH[OF rest] jt jd show ?case by simp
qed

lemma class_loop_tp:
  assumes "class_loop m (flat (snd s)) (flat (fst s)) js iou = Inr (m', iou')" and "distinct js"
  shows "tp m' ! k = tp m ! k + (if k \<in> set js then sample_tp (ignore_label m) s k else 0)"
  using assms
proof (induction js arbitrary: m iou)
  case Nil
  then show ?case by simp
next
  case (Cons j js)
  from Cons.prems(1) obtain t d where
    cc: "class_counts (ignore_label m) (flat (snd s)) (flat (fst s)) (int j) = Inr (t, d)"
    and jt: "j < length (tp m)" and
    rest: "class_loop (m\<lparr>tp := (tp m)[j := tp m ! j + real_of_int t],
                        denom := (denom m)[j := denom m ! j + real_of_int d]\<rparr>)
             (flat (snd s)) (flat (fst s)) js
             (iou + (tp m ! j + real_of_int t) / (denom m ! j + real_of_int d + eps)) = Inr (m', iou')"
    by (rule class_loop_Cons_Inr)
  from Cons.prems(2) have dj: "distinct js" and nj: "j \<notin> set js" by auto
  note ih = Cons.IH[OF rest dj]
  show ?case
  proof (cases "k = j")
    case True
    with ih nj jt cc show ?thesis by (simp add: sample_tp_def)
  next
    case False
    with ih show ?thesis by simp
  qed
qed

lemma class_loop_denom:
  assumes "class_loop m (flat (snd s)) (flat (fst s)) js iou = Inr (m', iou')" and "distinct js"
  shows "denom m' ! k = denom m ! k + (if k \<in> set js then sample_denom (ignore_label m) s k else 0)"
  using assms
proof (induction js arbitrary: m iou)
  case Nil
  then show ?case by simp
next
  case (Cons j js)
  from Cons.prems(1) obtain t d where
    cc: "class_counts (ignore_label m) (flat (snd s)) (flat (fst s)) (int j) = Inr (t, d)"
    and jd: "j < length (denom m)" and
    rest: "class_loop (m\<lparr>tp := (tp m)[j := tp m ! j + real_of_int t],
                        denom := (denom m)[j := denom m ! j + real_of_int d]\<rparr>)
             (flat (snd s)) (flat (fst s)) js
             (iou + (tp m ! j + real_of_int t) / (denom m ! j + real_of_int d + eps)) = Inr (m', iou')"
    by (rule class_loop_Cons_Inr)
  from Cons.prems(2) have dj: "distinct js" and nj: "j \<notin> set js" by auto
  note ih = Cons.IH[OF rest dj]
  show ?case
  proof (cases "k = j")
    case True
    with ih nj jd cc show ?thesis by (simp add: sample_denom_def)
  next
    case False
    with ih show ?thesis by simp
  qed
qed

lemma class_loop_iou:
  fixes s :: "ndarray \<times> ndarray"
  assumes "class_loop m (flat (snd s)) (flat (fst s)) js iou = Inr (m', iou')" and "distinct js"
  shows "iou' = iou + (\<Sum>j\<leftarrow>js. tp m' ! j / (denom m' ! j + eps))"
  using assms
proof (induction js arbitrary: m iou)
  case Nil
  then show ?case by simp
next
  case (Cons j js)
  from Cons.prems(1) obtain t d where
    cc: "class_counts (ignore_label m) (flat (snd s)) (flat (fst s)) (int j) = Inr (t, d)"
    and jt: "j < length (tp m)" and jd: "j < length (denom m)" and
    rest: "class_loop (m\<lparr>tp := (tp m)[j := tp m ! j + real_of_int t],
                        denom := (denom m)[j := denom m ! j + real_of_int d]\<rparr>)
             (flat (snd s)) (flat (fst s)) js
             (iou + (tp m ! j + real_of_int t) / (denom m ! j + real_of_int d + eps)) = Inr (m', iou')"
    by (rule class_loop_Cons_Inr)
  from Cons.prems(2) have dj: "distinct js" and nj: "j \<notin> set js" by auto
  have t': "tp m' ! j = tp m ! j + real_of_int t"
    using class_loop_tp[OF rest dj, of j] nj jt by simp
  have d': "denom m' ! j = denom m ! j + real_of_int d"
    using class_loop_denom[OF rest dj, of j] nj jd by simp
  from Cons.IH[OF rest dj] t' d' show ?case by simp
qed

lemma update_sample_Inr:
  assumes "update_sample m lab prd = Inr m'"
  obtains m1 iou where
    "check_label_shapes (NDArray lab) (NDArray prd) 0 = Inr ()"
    and "class_loop m (flat (snd (lab, prd))) (flat (fst (lab, prd))) [0..<label_num m] 0 = Inr (m1, iou)"
    and "label_num m \<noteq> 0"
    and "m' = m1\<lparr>sum_metric := Some (iou / real (label_num m)), num_inst := Some 1\<rparr>"
  using assms by (auto simp: update_sample_def split: sum.splits prod.splits if_splits)

lemma update_sample_frame:
  assumes "update_sample m lab prd = Inr m'"
  shows "ignore_label m' = ignore_label m \<and> label_num m' = label_num m \<and>
         length (tp m') = length (tp m) \<and> length (denom m') = length (denom m)"
proof -
  from assms obtain m1 iou where
    loop: "class_loop m (flat (snd (lab, prd))) (flat (fst (lab, prd))) [0..<label_num m] 0 = Inr (m1, iou)"
    and m': "m' = m1\<lparr>sum_metric := Some (iou / real (label_num m)), num_inst := Some 1\<rparr>"
    by (rule update_sample_Inr)
  from class_loop_frame[OF loop] m' show ?thesis by simp
qed

lemma update_sample_tp:
  assumes "update_sample m lab prd = Inr m'"
  shows "tp m' ! k = tp m ! k + (if k < label_num m then sample_tp (ignore_label m) (lab, prd) k else 0)"
proof -
  from assms obtain m1 iou where
    loop: "class_loop m (flat (snd (lab, prd))) (flat (fst (lab, prd))) [0..<label_num m] 0 = Inr (m1, iou)"
    and m': "m' = m1\<lparr>sum_metric := Some (iou / real (label_num m)), num_inst := Some 1\<rparr>"
    by (rule update_sample_Inr)
  from class_loop_tp[OF loop, of k] m' show ?thesis by simp
qed

lemma update_sample_denom:
  assumes "update_sample m lab prd = Inr m'"
  shows "denom m' ! k = denom m ! k + (if k < label_num m then sample_denom (ignore_label m) (lab, prd) k else 0)"
proof -
  from assms obtain m1 iou where
    loop: "class_loop m (flat (snd (lab, prd))) (flat (fst (lab, prd))) [0..<label_num m] 0 = Inr (m1, iou)"
    and m': "m' = m1\<lparr>sum_metric := Some (iou / real (label_num m)), num_inst := Some 1\<rparr>"
    by (rule update_sample_Inr)
  from class_loop_denom[OF loop, of k] m' show ?thesis by simp
qed

lemma update_sample_synced:
  assumes "update_sample m lab prd = Inr m'"
  shows "synced m'"
proof -
  from assms obtain m1 iou where
    loop: "class_loop m (flat (snd (lab, prd))) (flat (fst (lab, prd))) [0..<label_num m] 0 = Inr (m1, iou)"
    and m': "m' = m1\<lparr>sum_metric := Some (iou / real (label_num m)), num_inst := Some 1\<rparr>"
    by (rule update_sample_Inr)
  have "iou = (\<Sum>j\<leftarrow>[0..<label_num m]. tp m1 ! j / (denom m1 ! j + eps))"
    using class_loop_iou[OF loop] by simp
  with class_loop_frame[OF loop] m' show ?thesis
    by (simp add: synced_def mean_iou_def)
qed

lemma update_loop_frame:
  "update_loop m ss = Inr m' \<Longrightarrow>
     ignore_label m' = ignore_label m \<and> label_num m' = label_num m \<and>
     length (tp m') = length (tp m) \<and> length (denom m') = length (denom m)"
proof (induction ss arbitrary: m)
  case Nil
  then show ?case by simp
next
  case (Cons s ss)
  obtain lab prd where s: "s = (lab, prd)" by (cases s)
  from Cons.prems s obtain m1 where
    one: "update_sample m lab prd = Inr m1" and rest: "update_loop m1 ss = Inr m'"
    by (auto split: sum.splits)
  from Cons.IH[OF rest] update_sample_frame[OF one] show ?case by simp
qed

lemma update_loop_tp:
  "update_loop m ss = Inr m' \<Longrightarrow>
     tp m' ! k = tp m ! k + (if k < label_num m then (\<Sum>s\<leftarrow>ss. sample_tp (ignore_label m) s k) else 0)"
proof (induction ss arbitrary: m)
  case Nil
  then show ?case by simp
next
  case (Cons s ss)
  obtain lab prd where s: "s = (lab, prd)" by (cases s)
  from Cons.prems s obtain m1 where
    one: "update_sample m lab prd = Inr m1" and rest: "update_loop m1 ss = Inr m'"
    by (auto split: sum.splits)
  from Cons.IH[OF rest] update_sample_frame[OF one] update_sample_tp[OF one, of k] s
  show ?case by simp
qed

lemma update_loop_denom:
  "update_loop m ss = Inr m' \<Longrightarrow>
     denom m' ! k = denom m ! k + (if k < label_num m then (\<Sum>s\<leftarrow>ss. sample_denom (ignore_label m) s k) else 0)"
proof (induction ss arbitrary: m)
  case Nil
  then show ?case by simp
next
  case (Cons s ss)
  obtain lab prd where s: "s = (lab, prd)" by (cases s)
  from Cons.prems s obtain m1 where
    one: "update_sample m lab prd = Inr m1" and rest: "update_loop m1 ss = Inr m'"
    by (auto split: sum.splits)
  from Cons.IH[OF rest] update_sample_frame[OF one] update_sample_denom[OF one, of k] s
  show ?case by simp
qed

lemma update_loop_synced:
  "update_loop m ss = Inr m' \<Longrightarrow> ss \<noteq> [] \<or> synced m \<Longrightarrow> synced m'"
proof (induction ss arbitrary: m)
  case Nil
  then show ?case by simp
next
  case (Cons s ss)
  obtain lab prd where s: "s = (lab, prd)" by (cases s)
  from Cons.prems(1) s obtain m1 where
    one: "update_sample m lab prd = Inr m1" and rest: "update_loop m1 ss = Inr m'"
    by (auto split: sum.splits)
  from update_sample_synced[OF one] Cons.IH[OF rest] show ?case by simp
qed

lemma update_Inr:
  assumes "update m labels preds = Inr m'"
  shows "length labels = length preds \<and> update_loop m (zip labels preds) = Inr m'"
  using assms by (auto simp: update_def check_label_shapes_def split: sum.splits if_splits)

lemma run_frame:
  "run m bs = Inr m' \<Longrightarrow>
     ignore_label m' = ignore_label m \<and> label_num m' = label_num m \<and>
     length (tp m') = length (tp m) \<and> length (denom m') = length (denom m)"
proof (induction bs arbitrary: m)
  case Nil
  then show ?case by simp
next
  case (Cons b bs)
  obtain ls ps where b: "b = (ls, ps)" by (cases b)
  from Cons.prems b obtain m1 where
    one: "update m ls ps = Inr m1" and rest: "run m1 bs = Inr m'"
    by (auto split: sum.splits)
  from Cons.IH[OF rest] update_loop_frame[of m "zip ls ps" m1] update_Inr[OF one] show ?case by simp
qed

lemma run_tp:
  "run m bs = Inr m' \<Longrightarrow>
     tp m' ! k = tp m ! k + (if k < label_num m then (\<Sum>s\<leftarrow>samples bs. sample_tp (ignore_label m) s k) else 0)"
proof (induction bs arbitrary: m)
  case Nil
  then show ?case by (simp add: samples_def)
next
  case (Cons b bs)
  obtain ls ps where b: "b = (ls, ps)" by (cases b)
  from Cons.prems b obtain m1 where
    one: "update m ls ps = Inr m1" and rest: "run m1 bs = Inr m'"
    by (auto split: sum.splits)
  from update_Inr[OF one] have loop: "update_loop m (zip ls ps) = Inr m1" by simp
  from Cons.IH[OF rest] update_loop_frame[OF loop] update_loop_tp[OF loop, of k] b
  show ?case by (simp add: samples_def)
qed

lemma run_denom:
  "run m bs = Inr m' \<Longrightarrow>
     denom m' ! k = denom m ! k + (if k < label_num m then (\<Sum>s\<leftarrow>samples bs. sample_denom (ignore_label m) s k) else 0)"
proof (induction bs arbitrary: m)
  case Nil
  then show ?case by (simp add: samples_def)
next
  case (Cons b bs)
  obtain ls ps where b: "b = (ls, ps)" by (cases b)
  from Cons.prems b obtain m1 where
    one: "update m ls ps = Inr m1" and rest: "run m1 bs = Inr m'"
    by (auto split: sum.splits)
  from update_Inr[OF one] have loop: "update_loop m (zip ls ps) = Inr m1" by simp
  from Cons.IH[OF rest] update_loop_frame[OF loop] update_loop_denom[OF loop, of k] b
  show ?case by (simp add: samples_def)
qed

lemma run_synced:
  "run m bs = Inr m' \<Longrightarrow> samples bs \<noteq> [] \<or> synced m \<Longrightarrow> synced m'"
proof (induction bs arbitrary: m)
  case Nil
  then show ?case by (simp add: samples_def)
next
  case (Cons b bs)
  obtain ls ps where b: "b = (ls, ps)" by (cases b)
  from Cons.prems(1) b obtain m1 where
    one: "update m ls ps = Inr m1" and rest: "run m1 bs = Inr m'"
    by (auto split: sum.splits)
  from update_Inr[OF one] have loop: "update_loop m (zip ls ps) = Inr m1" by simp
  have "synced m1 \<or> samples bs \<noteq> []"
    using update_loop_synced[OF loop] Cons.prems(2) b by (auto simp: samples_def)
  with Cons.IH[OF rest] show ?case by blast
qed

lemma get_synced:
  "synced m \<Longrightarrow> get m = Inr (Num (mean_iou (label_num m) (tp m) (denom m)))"
  by (simp add: synced_def get_def)

lemma class_counts_error:
  "class_counts ign p l j = Inl e \<Longrightarrow> e = BroadcastError (length p) (length l)"
  by (cases "broadcast_len (length p) (length l)")
     (auto simp: class_counts_Inr class_counts_Inl broadcast_len_def split: if_splits)

lemma class_loop_no_assert:
  "\<forall>j\<in>set js. int j \<noteq> ignore_label m \<Longrightarrow> class_loop m p l js iou \<noteq> Inl AssertionError"
proof (induction js arbitrary: m iou)
  case Nil
  then show ?case by simp
next
  case (Cons j js)
  show ?case
  proof (cases "class_counts (ignore_label m) p l (int j)")
    case (Inl e)
    with class_counts_error[OF Inl] show ?thesis by simp
  next
    case (Inr td)
    obtain t d where td: "td = (t, d)" by (cases td)
    from Inr td Cons.prems have le: "t \<le> d" using class_counts_le[of "ignore_label m" p l "int j" t d] by simp
    let ?m2 = "m\<lparr>tp := (tp m)[j := tp m ! j + real_of_int t],
                  denom := (denom m)[j := denom m ! j + real_of_int d]\<rparr>"
    have "class_loop ?m2 p l js (iou + (tp m ! j + real_of_int t) / (denom m ! j + real_of_int d + eps))
            \<noteq> Inl AssertionError"
      using Cons.prems by (intro Cons.IH) simp
    with Inr td le show ?thesis by (simp add: Let_def)
  qed
qed

lemma update_sample_no_assert:
  assumes "ignore_label m < 0 \<or> int (label_num m) \<le> ignore_label m"
  shows "update_sample m lab prd \<noteq> Inl AssertionError"
proof -
  have "\<forall>j\<in>set [0..<label_num m]. int j \<noteq> ignore_label m" using assms by auto
  from class_loop_no_assert[OF this, of "flat prd" "flat lab" 0] show ?thesis
    by (auto simp: update_sample_def check_label_shapes_def split: sum.splits list.splits if_splits)
qed

lemma update_loop_no_assert:
  "ignore_label m < 0 \<or> int (label_num m) \<le> ignore_label m \<Longrightarrow> update_loop m ss \<noteq> Inl AssertionError"
proof (induction ss arbitrary: m)
  case Nil
  then show ?case by simp
next
  case (Cons s ss)
  obtain lab prd where s: "s = (lab, prd)" by (cases s)
  show ?case
  proof (cases "update_sample m lab prd")
    case (Inl e)
    with update_sample_no_assert[OF Cons.prems, of lab prd] s show ?thesis by simp
  next
    case (Inr m1)
    from update_sample_frame[OF Inr] Cons.prems
    have "ignore_label m1 < 0 \<or> int (label_num m1) \<le> ignore_label m1" by simp
    from Cons.IH[OF this] Inr s show ?thesis by simp
  qed
qed

lemma class_loop_transfer:
  "class_loop m p l js iou = Inr r \<Longrightarrow> same_frame m m2 \<Longrightarrow> \<exists>r2. class_loop m2 p l js iou2 = Inr r2"
proof (induction js arbitrary: m m2 iou iou2 r)
  case Nil
  then show ?case by simp
next
  case (Cons j js)
  from Cons.prems(1) obtain t d where
    cc: "class_counts (ignore_label m) p l (int j) = Inr (t, d)" and le: "t \<le> d"
    and jt: "j < length (tp m)" and jd: "j < length (denom m)" and
    rest: "class_loop (m\<lparr>tp := (tp m)[j := tp m ! j + real_of_int t],
                        denom := (denom m)[j := denom m ! j + real_of_int d]\<rparr>) p l js
           (iou + (tp m ! j + real_of_int t) / (denom m ! j + real_of_int d + eps)) = Inr r"
    by (rule class_loop_Cons_Inr)
  let ?m2' = "m2\<lparr>tp := (tp m2)[j := tp m2 ! j + real_of_int t],
                  denom := (denom m2)[j := denom m2 ! j + real_of_int d]\<rparr>"
  have "same_frame (m\<lparr>tp := (tp m)[j := tp m ! j + real_of_int t],
                        denom := (denom m)[j := denom m ! j + real_of_int d]\<rparr>) ?m2'"
    using Cons.prems(2) by (simp add: same_frame_def)
  from Cons.IH[OF rest this] obtain r2 where
    "class_loop ?m2' p l js (iou2 + (tp m2 ! j + real_of_int t) / (denom m2 ! j + real_of_int d + eps)) = Inr r2"
    by blast
  with cc le jt jd Cons.prems(2) show ?case by (simp add: same_frame_def Let_def)
qed

lemma update_sample_transfer:
  assumes "update_sample m lab prd = Inr m'" and "same_frame m m2"
  shows "\<exists>m2'. update_sample m2 lab prd = Inr m2'"
proof -
  from assms(1) obtain m1 iou where
    chk: "check_label_shapes (NDArray lab) (NDArray prd) 0 = Inr ()"
    and loop: "class_loop m (flat (snd (lab, prd))) (flat (fst (lab, prd))) [0..<label_num m] 0 = Inr (m1, iou)"
    and n0: "label_num m \<noteq> 0"
    by (rule update_sample_Inr)
  from class_loop_transfer[OF loop assms(2), of 0] obtain r2 where
    "class_loop m2 (flat prd) (flat lab) [0..<label_num m] 0 = Inr r2" by auto
  with chk n0 assms(2) show ?thesis
    by (cases r2) (simp add: update_sample_def same_frame_def)
qed

lemma update_sample_same_frame:
  "update_sample m lab prd = Inr m' \<Longrightarrow> same_frame m m'"
  using update_sample_frame[of m lab prd m'] by (simp add: same_frame_def)

lemma same_frame_sym: "same_frame a b \<Longrightarrow> same_frame b a"
  by (simp add: same_frame_def)

lemma same_frame_trans: "same_frame a b \<Longrightarrow> same_frame b c \<Longrightarrow> same_frame a c"
  by (simp add: same_frame_def)

lemma update_loop_transfer:
  "update_loop m ss = Inr m' \<Longrightarrow> same_frame m m2 \<Longrightarrow> \<exists>m2'. update_loop m2 ss = Inr m2'"
proof (induction ss arbitrary: m m2)
  case Nil
  then show ?case by simp
next
  case (Cons s ss)
  obtain lab prd where s: "s = (lab, prd)" by (cases s)
  from Cons.prems(1) s obtain m1 where
    one: "update_sample m lab prd = Inr m1" and rest: "update_loop m1 ss = Inr m'"
    by (auto split: sum.splits)
  from update_sample_transfer[OF one Cons.prems(2)] obtain m21 where
    one2: "update_sample m2 lab prd = Inr m21" by blast
  have "same_frame m1 m21"
    using update_sample_same_frame[OF one] update_sample_same_frame[OF one2] Cons.prems(2)
    by (meson same_frame_sym same_frame_trans)
  from Cons.IH[OF rest this] one2 s show ?case by simp
qed

lemma update_transfer:
  assumes "update m labels preds = Inr m'" and "same_frame m m2"
  shows "\<exists>m2'. update m2 labels preds = Inr m2'"
proof -
  from update_Inr[OF assms(1)] have len: "length labels = length preds"
    and loop: "update_loop m (zip labels preds) = Inr m'" by simp_all
  from update_loop_transfer[OF loop assms(2)] len show ?thesis
    by (simp add: update_def check_label_shapes_def)
qed

lemma update_same_frame:
  assumes "update m labels preds = Inr m'"
  shows "same_frame m m'"
  using update_loop_frame[of m "zip labels preds" m'] update_Inr[OF assms]
  by (simp add: same_frame_def)

lemma run_succeeds_iff:
  "(\<exists>m'. run m bs = Inr m') \<longleftrightarrow> (\<forall>b\<in>set bs. \<exists>m'. update m (fst b) (snd b) = Inr m')"
proof (induction bs arbitrary: m)
  case Nil
  then show ?case by simp
next
  case (Cons b bs)
  obtain ls ps where b: "b = (ls, ps)" by (cases b)
  show ?case
  proof
    assume "\<exists>m'. run m (b # bs) = Inr m'"
    then obtain m' m1 where one: "update m ls ps = Inr m1" and rest: "run m1 bs = Inr m'"
      using b by (auto split: sum.splits)
    from rest Cons.IH[of m1] have all1: "\<forall>b\<in>set bs. \<exists>m'. update m1 (fst b) (snd b) = Inr m'"
      by blast
    have "\<exists>m'. update m (fst c) (snd c) = Inr m'" if "c \<in> set bs" for c
    proof -
      from all1 that obtain mc where "update m1 (fst c) (snd c) = Inr mc" by blast
      from update_transfer[OF this same_frame_sym[OF update_same_frame[OF one]]] show ?thesis .
    qed
    with one b show "\<forall>b\<in>set (b # bs). \<exists>m'. update m (fst b) (snd b) = Inr m'" by auto
  next
    assume all: "\<forall>b\<in>set (b # bs). \<exists>m'. update m (fst b) (snd b) = Inr m'"
    then obtain m1 where one: "update m ls ps = Inr m1" using b by auto
    have "\<exists>m'. update m1 (fst c) (snd c) = Inr m'" if "c \<in> set bs" for c
    proof -
      from all that obtain mc where "update m (fst c) (snd c) = Inr mc" by auto
      from update_transfer[OF this update_same_frame[OF one]] show ?thesis .
    qed
    with Cons.IH[of m1] obtain m' where "run m1 bs = Inr m'" by blast
    with one b show "\<exists>m'. run m (b # bs) = Inr m'" by simp
  qed
qed

lemma sum_list_map_perm:
  fixes f :: "'a \<Rightarrow> 'b::comm_monoid_add"
  assumes "mset xs = mset ys"
  shows "(\<Sum>x\<leftarrow>xs. f x) = (\<Sum>x\<leftarrow>ys. f x)"
proof -
  have "(\<Sum>x\<leftarrow>xs. f x) = sum_mset (image_mset f (mset xs))"
    by (metis mset_map sum_mset_sum_list)
  also have "\<dots> = sum_mset (image_mset f (mset ys))" using assms by simp
  also have "\<dots> = (\<Sum>x\<leftarrow>ys. f x)" by (metis mset_map sum_mset_sum_list)
  finally show ?thesis .
qed

lemma mset_samples_perm:
  assumes "mset bs' = mset bs"
  shows "mset (samples bs') = mset (samples bs)"
proof -
  have "mset (samples cs) = (\<Sum>b\<leftarrow>cs. mset (zip (fst b) (snd b)))" for cs
    by (induction cs) (auto simp: samples_def)
  with sum_list_map_perm[OF assms, of "\<lambda>b. mset (zip (fst b) (snd b))"] show ?thesis by simp
qed

lemma totals_same_samples:
  assumes "run m bs = Inr m1" and "run m bs' = Inr m2"
    and "mset (samples bs) = mset (samples bs')"
  shows "tp m1 = tp m2 \<and> denom m1 = denom m2"
proof
  show "tp m1 = tp m2"
  proof (rule nth_equalityI)
    show "length (tp m1) = length (tp m2)"
      using run_frame[OF assms(1)] run_frame[OF assms(2)] by simp
  next
    fix k
    show "tp m1 ! k = tp m2 ! k"
      using run_tp[OF assms(1), of k] run_tp[OF assms(2), of k]
        sum_list_map_perm[OF assms(3), of "\<lambda>s. sample_tp (ignore_label m) s k"] by simp
  qed
next
  show "denom m1 = denom m2"
  proof (rule nth_equalityI)
    show "length (denom m1) = length (denom m2)"
      using run_frame[OF assms(1)] run_frame[OF assms(2)] by simp
  next
    fix k
    show "denom m1 ! k = denom m2 ! k"
      using run_denom[OF assms(1), of k] run_denom[OF assms(2), of k]
        sum_list_map_perm[OF assms(3), of "\<lambda>s. sample_denom (ignore_label m) s k"] by simp
  qed
qed

lemma count_where_nonneg: "0 \<le> count_where P xs"
  by (simp add: count_where_def)

lemma count_where_cong:
  "(\<And>x. x \<in> set xs \<Longrightarrow> P x = Q x) \<Longrightarrow> count_where P xs = count_where Q xs"
  unfolding count_where_def by (metis (mono_tags, lifting) filter_cong)

lemma sample_counts_same_length:
  assumes "length (flat (snd s)) = length (flat (fst s))"
  shows "sample_tp ign s j =
           real_of_int (count_where (\<lambda>(x, y). x = int j \<and> y = int j) (zip (flat (snd s)) (flat (fst s))))"
    and "sample_denom ign s j =
           real_of_int (count_where (\<lambda>(x, y). x = int j \<or> y = int j) (zip (flat (snd s)) (flat (fst s)))
             - count_where (\<lambda>(x, y). x = int j \<and> y = ign) (zip (flat (snd s)) (flat (fst s))))"
proof -
  have b: "broadcast_len (length (flat (snd s))) (length (flat (fst s))) = Inr (length (flat (snd s)))"
    using assms by (simp add: broadcast_len_def)
  show "sample_tp ign s j =
           real_of_int (count_where (\<lambda>(x, y). x = int j \<and> y = int j) (zip (flat (snd s)) (flat (fst s))))"
    by (simp add: sample_tp_def class_counts_Inr[OF b] pixel_pairs_same_length[OF assms])
  show "sample_denom ign s j =
           real_of_int (count_where (\<lambda>(x, y). x = int j \<or> y = int j) (zip (flat (snd s)) (flat (fst s)))
             - count_where (\<lambda>(x, y). x = int j \<and> y = ign) (zip (flat (snd s)) (flat (fst s))))"
    by (simp add: sample_denom_def class_counts_Inr[OF b] pixel_pairs_same_length[OF assms])
qed

lemma sample_tp_nonneg: "0 \<le> sample_tp ign s j"
proof (cases "broadcast_len (length (flat (snd s))) (length (flat (fst s)))")
  case (Inl e)
  then show ?thesis by (simp add: sample_tp_def class_counts_Inl)
next
  case (Inr n)
  then show ?thesis by (simp add: sample_tp_def class_counts_Inr count_where_nonneg)
qed

lemma agrees_tp_eq_denom:
  assumes "agrees ign s" and "int j \<noteq> ign"
  shows "sample_denom ign s j = sample_tp ign s j"
proof -
  let ?ps = "zip (flat (snd s)) (flat (fst s))"
  from assms(1) have len: "length (flat (snd s)) = length (flat (fst s))"
    and all: "\<forall>(x, y)\<in>set ?ps. y \<noteq> ign \<longrightarrow> x = y"
    by (auto simp: agrees_def list_all2_iff)
  have "count_where (\<lambda>(x, y). x = int j \<or> y = int j) ?ps
          - count_where (\<lambda>(x, y). x = int j \<and> y = ign) ?ps
        = count_where (\<lambda>(x, y). y \<noteq> ign \<and> (x = int j \<or> y = int j)) ?ps"
    by (rule count_denom_eq[OF assms(2)])
  also have "\<dots> = count_where (\<lambda>(x, y). x = int j \<and> y = int j) ?ps"
    by (rule count_where_cong) (use all assms(2) in auto)
  finally show ?thesis
    using sample_counts_same_length[OF len, of ign j] by simp
qed

lemma count_where_snd_zip:
  assumes "length xs = length ys"
  shows "count_where (\<lambda>(x, y). P y) (zip xs ys) = int (length (filter P ys))"
  using assms by (induction xs ys rule: list_induct2) (auto simp: count_where_def)

lemma agrees_tp_labelled:
  assumes "agrees ign s" and "int j \<noteq> ign"
  shows "sample_tp ign s j = real (labelled j s)"
proof -
  let ?ps = "zip (flat (snd s)) (flat (fst s))"
  from assms(1) have len: "length (flat (snd s)) = length (flat (fst s))"
    and all: "\<forall>(x, y)\<in>set ?ps. y \<noteq> ign \<longrightarrow> x = y"
    by (auto simp: agrees_def list_all2_iff)
  have "count_where (\<lambda>(x, y). x = int j \<and> y = int j) ?ps = count_where (\<lambda>(x, y). y = int j) ?ps"
    by (rule count_where_cong) (use all assms(2) in auto)
  also have "\<dots> = int (labelled j s)"
    using count_where_snd_zip[OF len, of "\<lambda>y. y = int j"] by (simp add: labelled_def)
  finally show ?thesis
    using sample_counts_same_length(1)[OF len, of ign j] by simp
qed

lemma agrees_sum_tp_labelled:
  assumes "\<forall>s\<in>set ss. agrees ign s" and "int j \<noteq> ign"
  shows "(\<Sum>s\<leftarrow>ss. sample_tp ign s j) = real (\<Sum>s\<leftarrow>ss. labelled j s)"
  using assms(1)
proof (induction ss)
  case Nil
  then show ?case by simp
next
  case (Cons s ss)
  then show ?case using agrees_tp_labelled[OF _ assms(2), of s] by simp
qed

lemma ratio_le_one:
  fixes t :: real
  assumes "0 \<le> t"
  shows "0 \<le> t / (t + eps) \<and> t / (t + eps) \<le> 1"
proof -
  have "0 < eps" by (simp add: eps_def)
  with assms have "0 < t + eps" by simp
  moreover from \<open>0 < eps\<close> have "t \<le> t + eps" by simp
  ultimately show ?thesis using assms by (simp add: divide_simps)
qed

lemma ratio_lower:
  fixes t :: real
  assumes "1 \<le> t"
  shows "1000000 / 1000001 \<le> t / (t + eps)"
proof -
  have "0 < t + eps" using assms by (simp add: eps_def)
  then show ?thesis using assms by (simp add: eps_def divide_simps)
qed

lemma sum_list_le_length:
  fixes f :: "'a \<Rightarrow> real"
  assumes "\<And>x. x \<in> set xs \<Longrightarrow> f x \<le> 1"
  shows "(\<Sum>x\<leftarrow>xs. f x) \<le> real (length xs)"
  using assms by (induction xs) (auto simp: add_mono)

lemma sum_list_ge_length:
  fixes f :: "'a \<Rightarrow> real"
  assumes "\<And>x. x \<in> set xs \<Longrightarrow> c \<le> f x"
  shows "real (length xs) * c \<le> (\<Sum>x\<leftarrow>xs. f x)"
  using assms by (induction xs) (auto simp: algebra_simps add_mono)

lemma update_loop_append:
  "update_loop m (xs @ ys) =
     (case update_loop m xs of Inl e \<Rightarrow> Inl e | Inr m1 \<Rightarrow> update_loop m1 ys)"
  by (induction xs arbitrary: m) (auto split: sum.splits)

lemma update_sample_mismatch:
  assumes "shape lab = a # as" and "shape prd = b # bs" and "a \<noteq> b"
  shows "update_sample m lab prd = Inl (ShapeMismatch (Len a) (Len b))"
  using assms by (simp add: update_sample_def check_label_shapes_def)

lemma update_sample_first_axis:
  assumes "update_sample m lab prd = Inr m'"
  shows "\<exists>n as bs. shape lab = n # as \<and> shape prd = n # bs"
  using assms
  by (auto simp: update_sample_def check_label_shapes_def split: sum.splits list.splits if_splits)

lemma update_loop_first_axis:
  "update_loop m ss = Inr m' \<Longrightarrow>
     \<forall>s\<in>set ss. \<exists>n as bs. shape (fst s) = n # as \<and> shape (snd s) = n # bs"
proof (induction ss arbitrary: m)
  case Nil
  then show ?case by simp
next
  case (Cons s ss)
  obtain lab prd where s: "s = (lab, prd)" by (cases s)
  from Cons.prems s obtain m1 where
    one: "update_sample m lab prd = Inr m1" and rest: "update_loop m1 ss = Inr m'"
    by (auto split: sum.splits)
  from update_sample_first_axis[OF one] Cons.IH[OF rest] s show ?case by simp
qed

lemma get_reset: "get (reset m) = get m"
  by (simp add: reset_def get_def split: option.splits)

lemma mean_iou_zero: "mean_iou n (replicate n 0) (replicate n 0) = 0"
proof -
  have "map (\<lambda>j. replicate n (0::real) ! j / (replicate n 0 ! j + eps)) [0..<n] = map (\<lambda>j. 0) [0..<n]"
    by (rule map_cong) auto
  then have "sum_list (map (\<lambda>j. replicate n (0::real) ! j / (replicate n 0 ! j + eps)) [0..<n]) = 0"
    by (simp only: sum_list_0)
  then show ?thesis unfolding mean_iou_def by (simp only: div_0)
qed

lemma crop_loop_eq:
  "crop_loop idx p l ks val_lst = val_lst @ map (\<lambda>k. [idx, p, l, ''512'', str_nat (256 * k)]) ks"
  by (induction ks arbitrary: val_lst) simp_all

lemma image_loop_eq:
  "image_loop isfile data_dir label_dir ps (index, val_lst) =
     (index + length (filter (\<lambda>p. isfile (label_path data_dir label_dir p)) ps),
      val_lst @ concat (map (records_of data_dir label_dir)
         (zip [Suc index..<Suc (index + length (filter (\<lambda>p. isfile (label_path data_dir label_dir p)) ps))]
              (filter (\<lambda>p. isfile (label_path data_dir label_dir p)) ps))))"
proof (induction ps arbitrary: index val_lst)
  case Nil
  then show ?case by simp
next
  case (Cons p ps)
  show ?case
  proof (cases "isfile (label_path data_dir label_dir p)")
    case True
    then show ?thesis
      by (simp add: Cons.IH crop_loop_eq records_of_def upt_conv_Cons Let_def del: upt_Suc)
  next
    case False
    then show ?thesis by (simp add: Cons.IH Let_def)
  qed
qed

lemma build_val_lst_eq:
  "build_val_lst isfile data_dir label_dir globbed =
     concat (map (records_of data_dir label_dir)
       (zip [1..<Suc (length (matched isfile data_dir label_dir globbed))]
            (matched isfile data_dir label_dir globbed)))"
  by (simp add: build_val_lst_def image_loop_eq matched_def del: upt_Suc)

lemma upt_1_8: "[1..<8] = [1, 2, 3, 4, 5, 6, 7::nat]"
  by code_simp

lemma replicate_7: "replicate 7 x = [x, x, x, x, x, x, x]"
  by (simp add: numeral_eq_Suc)

lemma records_of_paths:
  "map (\<lambda>r. r ! 1) (records_of data_dir label_dir ip) = replicate 7 (snd ip)"
  unfolding records_of_def upt_1_8 replicate_7 by simp

lemma records_of_eq:
  "records_of data_dir label_dir =
     (\<lambda>(i, p). map (\<lambda>k. [str_nat i, p, label_path data_dir label_dir p, ''512'', str_nat (256 * k)]) [1..<8])"
  by (rule ext) (simp add: records_of_def split_def)

section \<open>The properties of the specification\<close>

subsection \<open>C1: the reported value is cumulative\<close>

text \<open>
  C1 as stated fails for a sequence of \<^verbatim>\<open>update\<close> calls that processes no sample.
  A first pass leaves the value \<open>1000000 / 19000019\<close> stored; after \<^verbatim>\<open>reset\<close> and one
  \<^verbatim>\<open>update\<close> with an empty batch, \<^verbatim>\<open>sum_metric\<close> still holds it and \<^verbatim>\<open>get\<close> returns it,
  while the counters are all zero and their mean is 0.
\<close>

theorem get_after_empty_batch_counterexample:
  "update (IoUMetric_init 255 19) [px 0] [px 0] = Inr after_first_pass \<and>
   run (reset after_first_pass) [([], [])] = Inr (reset after_first_pass) \<and>
   sum_metric (reset after_first_pass) = Some (1000000 / 19000019) \<and>
   num_inst (reset after_first_pass) = Some 1 \<and>
   get (reset after_first_pass) = Inr (Num (1000000 / 19000019)) \<and>
   mean_iou 19 (tp (reset after_first_pass)) (denom (reset after_first_pass)) = 0"
  by code_simp

text \<open>
  C1, amended: after a sequence of \<^verbatim>\<open>update\<close> calls since the last \<^verbatim>\<open>reset\<close> that processed
  at least one sample, the stored value \<^verbatim>\<open>sum_metric\<close> (with \<^verbatim>\<open>num_inst\<close> equal to 1), and so
  the value returned by \<^verbatim>\<open>get\<close>, is the mean over the classes of
  \<open>tp[j] / (denom[j] + \<epsilon>)\<close>, where \<open>tp[j]\<close> and \<open>denom[j]\<close> are the sums of the
  per-sample counts over every sample of every batch processed since the \<^verbatim>\<open>reset\<close>.
\<close>

theorem get_is_cumulative_mean:
  assumes "run (reset m) batches = Inr m'" and "samples batches \<noteq> []"
  shows "sum_metric m' = Some (mean_iou (label_num m) (tp m') (denom m')) \<and>
         num_inst m' = Some 1 \<and>
         get m' = Inr (Num (mean_iou (label_num m) (tp m') (denom m'))) \<and>
         (\<forall>j<label_num m.
            tp m' ! j = (\<Sum>s\<leftarrow>samples batches. sample_tp (ignore_label m) s j) \<and>
            denom m' ! j = (\<Sum>s\<leftarrow>samples batches. sample_denom (ignore_label m) s j))"
proof -
  have sy: "synced m'" using run_synced[OF assms(1)] assms(2) by simp
  have n: "label_num m' = label_num m" using run_frame[OF assms(1)] by (simp add: reset_def)
  from sy n have st: "sum_metric m' = Some (mean_iou (label_num m) (tp m') (denom m')) \<and>
         num_inst m' = Some 1"
    by (simp add: synced_def)
  from sy n have g: "get m' = Inr (Num (mean_iou (label_num m) (tp m') (denom m')))"
    using get_synced[of m'] by simp
  have "tp m' ! j = (\<Sum>s\<leftarrow>samples batches. sample_tp (ignore_label m) s j)" if "j < label_num m" for j
    using run_tp[OF assms(1), of j] that by (simp add: reset_def)
  moreover
  have "denom m' ! j = (\<Sum>s\<leftarrow>samples batches. sample_denom (ignore_label m) s j)" if "j < label_num m" for j
    using run_denom[OF assms(1), of j] that by (simp add: reset_def)
  ultimately show ?thesis using g st by simp
qed

theorem get_is_cumulative_mean_witness:
  "run (reset (IoUMetric_init 255 19)) two_batches = Inr two_classes_hit \<and>
   samples two_batches \<noteq> [] \<and>
   sum_metric two_classes_hit = Some (mean_iou 19 (tp two_classes_hit) (denom two_classes_hit)) \<and>
   get two_classes_hit = Inr (Num (mean_iou 19 (tp two_classes_hit) (denom two_classes_hit))) \<and>
   tp two_classes_hit ! 1 = (\<Sum>s\<leftarrow>samples two_batches. sample_tp 255 s 1)"
proof -
  have r: "run (reset (IoUMetric_init 255 19)) two_batches = Inr two_classes_hit"
    by code_simp
  have s: "samples two_batches \<noteq> []"
    by code_simp
  have n: "label_num (IoUMetric_init 255 19) = 19" "ignore_label (IoUMetric_init 255 19) = 255"
    by (simp_all add: IoUMetric_init_def reset_def)
  have one: "(1::nat) < 19" by simp
  from get_is_cumulative_mean[OF r s] r s one show ?thesis
    unfolding n by blast
qed

subsection \<open>C2: the assertion of the class loop\<close>

text \<open>
  C2: when the ignore label is not one of the classes \<open>0, \<dots>, label_num - 1\<close> (as with
  ignore label 255 and 19 classes), the count \<^verbatim>\<open>tp\<close> of every class of every sample is at
  most the count \<^verbatim>\<open>denom\<close>, and \<^verbatim>\<open>update\<close> never fails with the assertion error.
\<close>

theorem assertion_never_fails:
  assumes "ignore_label m < 0 \<or> int (label_num m) \<le> ignore_label m"
  shows "update m labels preds \<noteq> Inl AssertionError \<and>
         (\<forall>j<label_num m. \<forall>p l t d.
            class_counts (ignore_label m) p l (int j) = Inr (t, d) \<longrightarrow> t \<le> d)"
proof
  from update_loop_no_assert[OF assms, of "zip labels preds"]
  show "update m labels preds \<noteq> Inl AssertionError"
    by (auto simp: update_def check_label_shapes_def split: sum.splits if_splits)
next
  show "\<forall>j<label_num m. \<forall>p l t d.
            class_counts (ignore_label m) p l (int j) = Inr (t, d) \<longrightarrow> t \<le> d"
    using assms class_counts_le by (metis not_less of_nat_0_le_iff of_nat_less_iff)
qed

theorem assertion_never_fails_witness:
  "(ignore_label (IoUMetric_init 255 19) < 0 \<or>
      int (label_num (IoUMetric_init 255 19)) \<le> ignore_label (IoUMetric_init 255 19)) \<and>
   update (IoUMetric_init 255 19) [lab3] [prd3] \<noteq> Inl AssertionError \<and>
   class_counts 255 [7, 7, 1] [255, 7, 3] 7 = Inr (1, 1) \<and> (1::int) \<le> 1"
proof -
  have h: "ignore_label (IoUMetric_init 255 19) < 0 \<or>
      int (label_num (IoUMetric_init 255 19)) \<le> ignore_label (IoUMetric_init 255 19)"
    by (simp add: IoUMetric_init_def reset_def)
  have c: "class_counts 255 [7, 7, 1] [255, 7, 3] 7 = Inr (1, 1)"
    by code_simp
  have le: "(1::int) \<le> 1" by simp
  from assertion_never_fails[OF h, of "[lab3]" "[prd3]"] h c le show ?thesis by blast
qed

subsection \<open>C3: the two shape checks\<close>

text \<open>
  C3 as stated fails: the check made for each sample compares \<^verbatim>\<open>len(label)\<close> with
  \<^verbatim>\<open>len(pred_label)\<close>, the lengths of the first axes, since \<^verbatim>\<open>check_label_shapes\<close> is
  called without its third argument. A label array of shape \<open>(2, 1)\<close> and a prediction
  array of shape \<open>(2)\<close> differ in shape, and \<^verbatim>\<open>update\<close> returns without an error.
\<close>

theorem shape_check_counterexample:
  "shape col2 \<noteq> shape vec2 \<and> nd_wf col2 \<and> nd_wf vec2 \<and>
   update (IoUMetric_init 255 19) [col2] [vec2] = Inr two_classes_hit"
  by code_simp

text \<open>
  C3, amended: \<^verbatim>\<open>update\<close> raises the ValueError of \<^verbatim>\<open>check_label_shapes\<close> whenever the list
  of labels and the list of predictions differ in length, and whenever it reaches a sample
  whose label array and prediction-label array differ in the length of their first axis;
  so a call that returns has lists of equal length and, for every sample, arrays with
  equal first axes. Shapes that differ elsewhere pass the check.
\<close>

theorem shape_checks:
  "(length labels \<noteq> length preds \<longrightarrow>
      update m labels preds = Inl (ShapeMismatch (Len (length labels)) (Len (length preds)))) \<and>
   (length labels = length preds \<and> i < length labels \<and>
    update_loop m (take i (zip labels preds)) = Inr mi \<and>
    shape (labels ! i) = a # as \<and> shape (preds ! i) = b # bs \<and> a \<noteq> b \<longrightarrow>
      update m labels preds = Inl (ShapeMismatch (Len a) (Len b))) \<and>
   (update m labels preds = Inr m' \<longrightarrow>
      length labels = length preds \<and>
      (\<forall>k<length labels. \<exists>n as bs. shape (labels ! k) = n # as \<and> shape (preds ! k) = n # bs))"
proof (intro conjI impI)
  assume "length labels \<noteq> length preds"
  then show "update m labels preds = Inl (ShapeMismatch (Len (length labels)) (Len (length preds)))"
    by (simp add: update_def check_label_shapes_def)
next
  assume h: "length labels = length preds \<and> i < length labels \<and>
    update_loop m (take i (zip labels preds)) = Inr mi \<and>
    shape (labels ! i) = a # as \<and> shape (preds ! i) = b # bs \<and> a \<noteq> b"
  then have i: "i < length (zip labels preds)" by simp
  have "zip labels preds = take i (zip labels preds) @ (labels ! i, preds ! i) # drop (Suc i) (zip labels preds)"
    using id_take_nth_drop[OF i] h by simp
  then have "update_loop m (zip labels preds) =
      update_loop m (take i (zip labels preds) @ (labels ! i, preds ! i) # drop (Suc i) (zip labels preds))"
    by simp
  also have "\<dots> = Inl (ShapeMismatch (Len a) (Len b))"
    using h by (simp add: update_loop_append update_sample_mismatch)
  finally show "update m labels preds = Inl (ShapeMismatch (Len a) (Len b))"
    using h by (simp add: update_def check_label_shapes_def)
next
  assume u: "update m labels preds = Inr m'"
  from update_Inr[OF u] show "length labels = length preds" by simp
  from update_Inr[OF u] have len: "length labels = length preds"
    and loop: "update_loop m (zip labels preds) = Inr m'" by simp_all
  show "\<forall>k<length labels. \<exists>n as bs. shape (labels ! k) = n # as \<and> shape (preds ! k) = n # bs"
  proof (intro allI impI)
    fix k assume k: "k < length labels"
    then have "(labels ! k, preds ! k) \<in> set (zip labels preds)"
      using len by (metis in_set_zip fst_conv snd_conv)
    with update_loop_first_axis[OF loop] show "\<exists>n as bs. shape (labels ! k) = n # as \<and> shape (preds ! k) = n # bs"
      by fastforce
  qed
qed

theorem shape_checks_witness:
  "length [vec2, vec2] \<noteq> length [vec2] \<and>
   update (IoUMetric_init 255 19) [vec2, vec2] [vec2] = Inl (ShapeMismatch (Len 2) (Len 1)) \<and>
   length [vec2, vec2] = length [vec2, lab3] \<and> (1::nat) < length [vec2, vec2] \<and>
   update_loop (IoUMetric_init 255 19) (take 1 (zip [vec2, vec2] [vec2, lab3])) = Inr two_classes_hit \<and>
   shape ([vec2, vec2] ! 1) = 2 # [] \<and> shape ([vec2, lab3] ! 1) = 3 # [] \<and> (2::nat) \<noteq> 3 \<and>
   update (IoUMetric_init 255 19) [vec2, vec2] [vec2, lab3] = Inl (ShapeMismatch (Len 2) (Len 3)) \<and>
   update (IoUMetric_init 255 19) [col2] [vec2] = Inr two_classes_hit \<and>
   (\<exists>n as bs. shape ([col2] ! 0) = n # as \<and> shape ([vec2] ! 0) = n # bs)"
proof -
  have a: "length [vec2, vec2] \<noteq> length [vec2]" by simp
  have b: "length [vec2, vec2] = length [vec2, lab3] \<and> (1::nat) < length [vec2, vec2] \<and>
     update_loop (IoUMetric_init 255 19) (take 1 (zip [vec2, vec2] [vec2, lab3])) = Inr two_classes_hit \<and>
     shape ([vec2, vec2] ! 1) = 2 # [] \<and> shape ([vec2, lab3] ! 1) = 3 # [] \<and> (2::nat) \<noteq> 3"
    by code_simp
  have c: "update (IoUMetric_init 255 19) [col2] [vec2] = Inr two_classes_hit"
    by code_simp
  from shape_checks[of "[vec2, vec2]" "[vec2]" "IoUMetric_init 255 19"] a
  have 1: "update (IoUMetric_init 255 19) [vec2, vec2] [vec2] = Inl (ShapeMismatch (Len 2) (Len 1))"
    by simp
  from shape_checks[of "[vec2, vec2]" "[vec2, lab3]" "IoUMetric_init 255 19" 1 two_classes_hit 2 "[]" 3 "[]"] b
  have 2: "update (IoUMetric_init 255 19) [vec2, vec2] [vec2, lab3] = Inl (ShapeMismatch (Len 2) (Len 3))"
    by blast
  from shape_checks[of "[col2]" "[vec2]" "IoUMetric_init 255 19" _ _ _ _ _ _ two_classes_hit] c
  have "\<forall>k<length [col2]. \<exists>n as bs. shape ([col2] ! k) = n # as \<and> shape ([vec2] ! k) = n # bs"
    by blast
  then have 3: "\<exists>n as bs. shape ([col2] ! 0) = n # as \<and> shape ([vec2] ! 0) = n # bs"
    by simp
  from a b c 1 2 3 show ?thesis by blast
qed

subsection \<open>C4: a batch whose prediction equals the ground truth\<close>

text \<open>
  C4 as stated fails: with a label array \<open>[0, 1, 255]\<close> predicted as \<open>[0, 1, 7]\<close>, equal on
  every pixel that is not ignored, the term of class 0 is \<open>1 / (1 + \<epsilon>)\<close>, the term of a
  class without pixels, such as class 2, is 0, and the reported mean is
  \<open>2000000 / 19000019\<close>, not 1.
\<close>

theorem matching_batch_counterexample:
  "update (IoUMetric_init 255 19) [lab3] [prd3] = Inr two_classes_hit \<and>
   agrees 255 (lab3, prd3) \<and>
   contribution two_classes_hit 0 = 1000000 / 1000001 \<and>
   contribution two_classes_hit 2 = 0 \<and>
   sum_metric two_classes_hit = Some (2000000 / 19000019) \<and>
   get two_classes_hit = Inr (Num (2000000 / 19000019)) \<and>
   (2000000 / 19000019 :: real) < 1"
  by code_simp

text \<open>
  C4, amended: if every counter pair of the accumulator satisfies \<open>tp[j] = denom[j] \<ge> 0\<close>
  (as after \<^verbatim>\<open>reset\<close>), the ignore label is not a class, and \<^verbatim>\<open>update\<close> returns for a
  non-empty batch whose prediction equals the ground truth on all non-ignore pixels, then
  for every class \<open>j\<close> both \<open>tp[j]\<close> and \<open>denom[j]\<close> have grown by the number of pixels
  of the batch labelled \<open>j\<close> and are equal. The term of class \<open>j\<close> is
  \<open>tp[j] / (tp[j] + \<epsilon>)\<close>: at least \<open>1000000 / 1000001\<close> and at most 1 when the batch
  has a pixel labelled \<open>j\<close>, and 0 when the counter was 0 and the batch has no pixel
  labelled \<open>j\<close>. The stored and reported value is the mean of these terms: at most 1,
  and at least \<open>1000000 / 1000001\<close> when every class has a labelled pixel in the batch.
\<close>

theorem matching_batch_iou:
  assumes "update m labels preds = Inr m'"
    and "labels \<noteq> []"
    and "\<forall>s\<in>set (zip labels preds). agrees (ignore_label m) s"
    and "ignore_label m < 0 \<or> int (label_num m) \<le> ignore_label m"
    and "\<forall>j<label_num m. tp m ! j = denom m ! j \<and> 0 \<le> tp m ! j"
  shows "(\<forall>j<label_num m.
            tp m' ! j = tp m ! j + real (\<Sum>s\<leftarrow>zip labels preds. labelled j s) \<and>
            denom m' ! j = tp m' ! j \<and>
            contribution m' j = tp m' ! j / (tp m' ! j + eps) \<and>
            0 \<le> contribution m' j \<and> contribution m' j \<le> 1 \<and>
            ((\<exists>s\<in>set (zip labels preds). 0 < labelled j s) \<longrightarrow>
               1000000 / 1000001 \<le> contribution m' j) \<and>
            (tp m ! j = 0 \<and> (\<forall>s\<in>set (zip labels preds). labelled j s = 0) \<longrightarrow>
               contribution m' j = 0)) \<and>
         sum_metric m' = Some ((\<Sum>j\<leftarrow>[0..<label_num m]. contribution m' j) / real (label_num m)) \<and>
         get m' = Inr (Num ((\<Sum>j\<leftarrow>[0..<label_num m]. contribution m' j) / real (label_num m))) \<and>
         (\<Sum>j\<leftarrow>[0..<label_num m]. contribution m' j) / real (label_num m) \<le> 1 \<and>
         ((\<forall>j<label_num m. \<exists>s\<in>set (zip labels preds). 0 < labelled j s) \<longrightarrow>
            1000000 / 1000001 \<le> (\<Sum>j\<leftarrow>[0..<label_num m]. contribution m' j) / real (label_num m))"
proof -
  let ?ss = "zip labels preds"
  let ?n = "label_num m"
  let ?mean = "(\<Sum>j\<leftarrow>[0..<?n]. contribution m' j) / real ?n"
  from update_Inr[OF assms(1)] have len: "length labels = length preds"
    and loop: "update_loop m ?ss = Inr m'" by simp_all
  from len assms(2) have ne: "?ss \<noteq> []" by (cases labels; cases preds) auto
  have n0: "?n \<noteq> 0"
  proof -
    from ne obtain lab prd rest where ss: "?ss = (lab, prd) # rest" by (cases ?ss) auto
    with loop obtain m1 where "update_sample m lab prd = Inr m1" by (auto split: sum.splits)
    then show ?thesis by (rule update_sample_Inr)
  qed
  have jn: "int j \<noteq> ignore_label m" if "j < ?n" for j using assms(4) that by auto
  have t: "tp m' ! j = tp m ! j + real (\<Sum>s\<leftarrow>?ss. labelled j s)" if j: "j < ?n" for j
    using update_loop_tp[OF loop, of j] agrees_sum_tp_labelled[OF assms(3) jn[OF j]] j by simp
  have d: "denom m' ! j = tp m' ! j" if j: "j < ?n" for j
  proof -
    have "(\<Sum>s\<leftarrow>?ss. sample_denom (ignore_label m) s j) = (\<Sum>s\<leftarrow>?ss. sample_tp (ignore_label m) s j)"
      using assms(3) agrees_tp_eq_denom[OF _ jn[OF j]]
      by (intro arg_cong[where f = sum_list] map_cong) auto
    with update_loop_tp[OF loop, of j] update_loop_denom[OF loop, of j] assms(5) j
    show ?thesis by simp
  qed
  have nonneg: "0 \<le> tp m' ! j" if j: "j < ?n" for j
  proof -
    from assms(5) j have "0 \<le> tp m ! j" by blast
    with t[OF j] show ?thesis by simp
  qed
  have c: "contribution m' j = tp m' ! j / (tp m' ! j + eps)" if "j < ?n" for j
    using d[OF that] by (simp add: contribution_def)
  have b: "0 \<le> contribution m' j \<and> contribution m' j \<le> 1" if "j < ?n" for j
    using ratio_le_one[OF nonneg[OF that]] c[OF that] by simp
  have lo: "1000000 / 1000001 \<le> contribution m' j"
    if j: "j < ?n" and ex: "\<exists>s\<in>set ?ss. 0 < labelled j s" for j
  proof -
    from ex obtain s where s: "s \<in> set ?ss" and pos: "0 < labelled j s" by blast
    from s have "labelled j s \<le> (\<Sum>s\<leftarrow>?ss. labelled j s)"
      by (intro member_le_sum_list) simp_all
    with pos have "1 \<le> real (\<Sum>s\<leftarrow>?ss. labelled j s)" by simp
    moreover from assms(5) j have "0 \<le> tp m ! j" by blast
    ultimately have "1 \<le> tp m' ! j" using t[OF j] by simp
    from ratio_lower[OF this] c[OF j] show ?thesis by simp
  qed
  have zero: "contribution m' j = 0"
    if j: "j < ?n" and z: "tp m ! j = 0" and none: "\<forall>s\<in>set ?ss. labelled j s = 0" for j
  proof -
    from none have "(\<Sum>s\<leftarrow>?ss. labelled j s) = 0" by simp
    with t[OF j] z have "tp m' ! j = 0" by simp
    with c[OF j] show ?thesis by simp
  qed
  have sy: "synced m'" using update_loop_synced[OF loop] ne by simp
  then have g: "get m' = Inr (Num ?mean)"
    using get_synced[of m'] update_loop_frame[OF loop]
    by (simp add: mean_iou_def contribution_def)
  from sy have st: "sum_metric m' = Some ?mean"
    using update_loop_frame[OF loop]
    by (simp add: synced_def mean_iou_def contribution_def)
  have "(\<Sum>j\<leftarrow>[0..<?n]. contribution m' j) \<le> real (length [0..<?n])"
    by (rule sum_list_le_length) (use b in auto)
  then have up: "?mean \<le> 1" using n0 by (simp add: divide_simps)
  have low: "1000000 / 1000001 \<le> ?mean"
    if all: "\<forall>j<?n. \<exists>s\<in>set ?ss. 0 < labelled j s"
  proof -
    have "real (length [0..<?n]) * (1000000 / 1000001) \<le> (\<Sum>j\<leftarrow>[0..<?n]. contribution m' j)"
      by (rule sum_list_ge_length) (use lo all in auto)
    then show ?thesis using n0 by (simp add: divide_simps mult.commute)
  qed
  from t d c b lo zero st g up low show ?thesis by blast
qed

theorem matching_batch_iou_witness:
  "update (IoUMetric_init 255 19) [lab3] [prd3] = Inr two_classes_hit \<and>
   [lab3] \<noteq> [] \<and>
   agrees (ignore_label (IoUMetric_init 255 19)) (lab3, prd3) \<and>
   (ignore_label (IoUMetric_init 255 19) < 0 \<or>
      int (label_num (IoUMetric_init 255 19)) \<le> ignore_label (IoUMetric_init 255 19)) \<and>
   tp (IoUMetric_init 255 19) = replicate 19 0 \<and>
   denom (IoUMetric_init 255 19) = replicate 19 0 \<and>
   0 < labelled 0 (lab3, prd3) \<and>
   tp two_classes_hit ! 0 =
     tp (IoUMetric_init 255 19) ! 0 + real (\<Sum>s\<leftarrow>zip [lab3] [prd3]. labelled 0 s) \<and>
   1000000 / 1000001 \<le> contribution two_classes_hit 0 \<and>
   labelled 2 (lab3, prd3) = 0 \<and>
   contribution two_classes_hit 2 = 0 \<and>
   (\<Sum>j\<leftarrow>[0..<label_num (IoUMetric_init 255 19)]. contribution two_classes_hit j)
     / real (label_num (IoUMetric_init 255 19)) \<le> 1 \<and>
   update (IoUMetric_init 255 19) [all19] [all19] = Inr all_classes_hit \<and>
   agrees (ignore_label (IoUMetric_init 255 19)) (all19, all19) \<and>
   list_all (\<lambda>j. 0 < labelled j (all19, all19)) [0..<19] \<and>
   1000000 / 1000001 \<le>
     (\<Sum>j\<leftarrow>[0..<label_num (IoUMetric_init 255 19)]. contribution all_classes_hit j)
       / real (label_num (IoUMetric_init 255 19))"
proof -
  let ?I = "IoUMetric_init 255 19"
  have n: "label_num ?I = 19" and i: "ignore_label ?I = 255"
    by (simp_all add: IoUMetric_init_def reset_def)
  have u: "update ?I [lab3] [prd3] = Inr two_classes_hit"
    by code_simp
  have ne: "[lab3] \<noteq> []" by simp
  have ag1: "agrees (ignore_label ?I) (lab3, prd3)"
    by code_simp
  then have ag: "\<forall>s\<in>set (zip [lab3] [prd3]). agrees (ignore_label ?I) s"
    by simp
  have ig: "ignore_label ?I < 0 \<or> int (label_num ?I) \<le> ignore_label ?I"
    by (simp add: n i)
  have t0: "tp ?I = replicate 19 0" and d0: "denom ?I = replicate 19 0"
    by (simp_all add: IoUMetric_init_def reset_def)
  have z: "\<forall>j<label_num ?I. tp ?I ! j = denom ?I ! j \<and> 0 \<le> tp ?I ! j"
    by (simp add: n t0 d0)
  have p0: "0 < labelled 0 (lab3, prd3)" by code_simp
  have p2: "labelled 2 (lab3, prd3) = 0" by code_simp
  note inst = matching_batch_iou[OF u ne ag ig z]
  have j0: "0 < label_num ?I" and j2: "2 < label_num ?I" by (simp_all add: n)
  from inst j0 have a0: "tp two_classes_hit ! 0 =
      tp ?I ! 0 + real (\<Sum>s\<leftarrow>zip [lab3] [prd3]. labelled 0 s) \<and>
      ((\<exists>s\<in>set (zip [lab3] [prd3]). 0 < labelled 0 s) \<longrightarrow>
         1000000 / 1000001 \<le> contribution two_classes_hit 0)"
    by blast
  have e0: "\<exists>s\<in>set (zip [lab3] [prd3]). 0 < labelled 0 s" using p0 by simp
  from a0 e0 have c0: "1000000 / 1000001 \<le> contribution two_classes_hit 0" by blast
  from inst j2 have a2: "tp ?I ! 2 = 0 \<and> (\<forall>s\<in>set (zip [lab3] [prd3]). labelled 2 s = 0) \<longrightarrow>
      contribution two_classes_hit 2 = 0"
    by blast
  have "tp ?I ! 2 = 0" by (simp add: t0)
  moreover have "\<forall>s\<in>set (zip [lab3] [prd3]). labelled 2 s = 0" using p2 by simp
  ultimately have c2: "contribution two_classes_hit 2 = 0" using a2 by blast
  from inst have up: "(\<Sum>j\<leftarrow>[0..<label_num ?I]. contribution two_classes_hit j)
     / real (label_num ?I) \<le> 1"
    by blast
  have u': "update ?I [all19] [all19] = Inr all_classes_hit"
    by code_simp
  have ne': "[all19] \<noteq> []" by simp
  have ag1': "agrees (ignore_label ?I) (all19, all19)"
    by code_simp
  then have ag': "\<forall>s\<in>set (zip [all19] [all19]). agrees (ignore_label ?I) s"
    by simp
  have la: "list_all (\<lambda>j. 0 < labelled j (all19, all19)) [0..<19]"
    by code_simp
  then have all: "\<forall>j<label_num ?I. \<exists>s\<in>set (zip [all19] [all19]). 0 < labelled j s"
    by (simp add: n list_all_iff)
  from matching_batch_iou[OF u' ne' ag' ig z] all
  have lowm: "1000000 / 1000001 \<le>
     (\<Sum>j\<leftarrow>[0..<label_num ?I]. contribution all_classes_hit j) / real (label_num ?I)"
    by blast
  from u ne ag1 ig t0 d0 p0 a0 c0 p2 c2 up u' ag1' la lowm show ?thesis by blast
qed

subsection \<open>C5: ignored pixels and the denominator\<close>

text \<open>
  C5: for every sample and every class \<open>j\<close> (the ignore label not being a class), the count
  added to \<^verbatim>\<open>_denom[j]\<close> is the number of pixels predicted \<open>j\<close> or labelled \<open>j\<close> minus the
  number of pixels predicted \<open>j\<close> and labelled with the ignore label; it equals the number
  of pixels predicted or labelled \<open>j\<close> whose label is not the ignore label, so an ignored
  pixel never contributes to it.
\<close>

theorem ignore_pixels_excluded:
  assumes "update_sample m label pred_label = Inr m'"
    and "j < label_num m"
    and "ignore_label m < 0 \<or> int (label_num m) \<le> ignore_label m"
  shows "denom m' ! j = denom m ! j + sample_denom (ignore_label m) (label, pred_label) j \<and>
         sample_denom (ignore_label m) (label, pred_label) j =
           real_of_int (count_where (\<lambda>(x, y). x = int j \<or> y = int j) (pixel_pairs (flat pred_label) (flat label))
                      - count_where (\<lambda>(x, y). x = int j \<and> y = ignore_label m) (pixel_pairs (flat pred_label) (flat label))) \<and>
         sample_denom (ignore_label m) (label, pred_label) j =
           real_of_int (count_where (\<lambda>(x, y). y \<noteq> ignore_label m \<and> (x = int j \<or> y = int j))
                          (pixel_pairs (flat pred_label) (flat label)))"
proof -
  have jn: "int j \<noteq> ignore_label m" using assms(2,3) by auto
  have d: "denom m' ! j = denom m ! j + sample_denom (ignore_label m) (label, pred_label) j"
    using update_sample_denom[OF assms(1), of j] assms(2) by simp
  from assms(1) obtain m1 iou where
    loop: "class_loop m (flat (snd (label, pred_label))) (flat (fst (label, pred_label))) [0..<label_num m] 0 = Inr (m1, iou)"
    by (rule update_sample_Inr)
  obtain n where b: "broadcast_len (length (flat pred_label)) (length (flat label)) = Inr n"
  proof (cases "broadcast_len (length (flat pred_label)) (length (flat label))")
    case (Inl e)
    from assms(2) have "[0..<label_num m] = 0 # [1..<label_num m]" by (simp add: upt_conv_Cons)
    with loop class_counts_Inl[OF Inl, of "ignore_label m" "int 0"] have False by simp
    then show ?thesis ..
  next
    case (Inr n)
    then show ?thesis by (rule that)
  qed
  have e: "sample_denom (ignore_label m) (label, pred_label) j =
           real_of_int (count_where (\<lambda>(x, y). x = int j \<or> y = int j) (pixel_pairs (flat pred_label) (flat label))
                      - count_where (\<lambda>(x, y). x = int j \<and> y = ignore_label m) (pixel_pairs (flat pred_label) (flat label)))"
    by (simp add: sample_denom_def class_counts_Inr[OF b])
  with count_denom_eq[OF jn, of "pixel_pairs (flat pred_label) (flat label)"] d show ?thesis by simp
qed

theorem ignore_pixels_excluded_witness:
  "update_sample (IoUMetric_init 255 19) lab3 prd3 = Inr two_classes_hit \<and>
   7 < label_num (IoUMetric_init 255 19) \<and>
   (ignore_label (IoUMetric_init 255 19) < 0 \<or>
      int (label_num (IoUMetric_init 255 19)) \<le> ignore_label (IoUMetric_init 255 19)) \<and>
   denom two_classes_hit ! 7 =
     denom (IoUMetric_init 255 19) ! 7 + sample_denom (ignore_label (IoUMetric_init 255 19)) (lab3, prd3) 7 \<and>
   sample_denom 255 (lab3, prd3) 7 = 0"
proof -
  have u: "update_sample (IoUMetric_init 255 19) lab3 prd3 = Inr two_classes_hit"
    by code_simp
  have j: "7 < label_num (IoUMetric_init 255 19)"
    by (simp add: IoUMetric_init_def reset_def)
  have ig: "ignore_label (IoUMetric_init 255 19) < 0 \<or>
      int (label_num (IoUMetric_init 255 19)) \<le> ignore_label (IoUMetric_init 255 19)"
    by (simp add: IoUMetric_init_def reset_def)
  have z: "sample_denom 255 (lab3, prd3) 7 = 0"
    by code_simp
  from ignore_pixels_excluded[OF u j ig] u j ig z show ?thesis by blast
qed

subsection \<open>C6: which images the manifest keeps\<close>

text \<open>
  C6: the builder keeps exactly the images whose derived label path exists (the others
  leave no record, and nothing fails), and every kept image gives exactly 7 records, so
  the manifest has 7 records for each matched pair.
\<close>

theorem builder_keeps_matched:
  "map (\<lambda>r. r ! 1) (build_val_lst isfile data_dir label_dir globbed) =
     concat (map (replicate 7) (matched isfile data_dir label_dir globbed)) \<and>
   length (build_val_lst isfile data_dir label_dir globbed) =
     length (matched isfile data_dir label_dir globbed) * 7 \<and>
   set (map (\<lambda>r. r ! 1) (build_val_lst isfile data_dir label_dir globbed)) =
     {p \<in> set globbed. isfile (label_path data_dir label_dir p)}"
proof -
  let ?ms = "matched isfile data_dir label_dir globbed"
  let ?is = "[1..<Suc (length ?ms)]"
  have paths: "map (\<lambda>r. r ! 1) (build_val_lst isfile data_dir label_dir globbed) =
     concat (map (replicate 7) ?ms)"
  proof -
    have "map (\<lambda>r. r ! 1) (build_val_lst isfile data_dir label_dir globbed) =
        concat (map (\<lambda>ip. map (\<lambda>r. r ! 1) (records_of data_dir label_dir ip)) (zip ?is ?ms))"
      unfolding build_val_lst_eq by (simp only: map_concat map_map o_def)
    also have "\<dots> = concat (map (\<lambda>ip. replicate 7 (snd ip)) (zip ?is ?ms))"
      by (simp only: records_of_paths)
    also have "\<dots> = concat (map (replicate 7) (map snd (zip ?is ?ms)))"
      by (simp only: map_map o_def)
    also have "map snd (zip ?is ?ms) = ?ms"
      by (rule map_snd_zip) (simp del: upt_Suc)
    finally show ?thesis .
  qed
  have len: "length (build_val_lst isfile data_dir label_dir globbed) = length ?ms * 7"
    using arg_cong[OF paths, of length] by (simp add: length_concat o_def sum_list_triv)
  have "set (concat (map (replicate 7) ?ms)) = set ?ms"
    by auto
  then have "set (map (\<lambda>r. r ! 1) (build_val_lst isfile data_dir label_dir globbed)) =
     {p \<in> set globbed. isfile (label_path data_dir label_dir p)}"
    using paths by (auto simp: matched_def)
  with paths len show ?thesis by blast
qed

theorem builder_keeps_matched_witness:
  "matched demo_isfile ''img'' ''lab'' demo_glob = [''img/x/a_leftImg8bit.png''] \<and>
   map (\<lambda>r. r ! 1) (build_val_lst demo_isfile ''img'' ''lab'' demo_glob) =
     replicate 7 ''img/x/a_leftImg8bit.png'' \<and>
   length (build_val_lst demo_isfile ''img'' ''lab'' demo_glob) = 7"
proof -
  have m: "matched demo_isfile ''img'' ''lab'' demo_glob = [''img/x/a_leftImg8bit.png'']"
    by code_simp
  from builder_keeps_matched[of demo_isfile "''img''" "''lab''" demo_glob] show ?thesis
    unfolding m by simp
qed

subsection \<open>C7: reset followed by get\<close>

text \<open>
  C7 as stated fails: \<^verbatim>\<open>reset\<close> assigns \<^verbatim>\<open>_tp\<close> and \<^verbatim>\<open>_denom\<close> only, and \<^verbatim>\<open>get\<close> reads the
  stored value. After a first pass, \<^verbatim>\<open>reset\<close> followed by \<^verbatim>\<open>get\<close> has all counters zero
  and reports \<open>1000000 / 19000019\<close>, far above \<open>\<epsilon>\<close>.
\<close>

theorem reset_then_get_counterexample:
  "update (IoUMetric_init 255 19) [px 0] [px 0] = Inr after_first_pass \<and>
   tp (reset after_first_pass) = replicate 19 0 \<and>
   denom (reset after_first_pass) = replicate 19 0 \<and>
   sum_metric (reset after_first_pass) = Some (1000000 / 19000019) \<and>
   num_inst (reset after_first_pass) = Some 1 \<and>
   get (reset after_first_pass) = Inr (Num (1000000 / 19000019)) \<and>
   eps < 1000000 / 19000019"
  by code_simp

text \<open>
  C7, amended: \<^verbatim>\<open>reset\<close> makes every per-class true-positive and denominator counter zero,
  and the mean IoU of these counters is 0; \<^verbatim>\<open>sum_metric\<close> and \<^verbatim>\<open>num_inst\<close> are left as
  they were, and \<^verbatim>\<open>get\<close> called next, without an \<^verbatim>\<open>update\<close> in between, returns what
  \<^verbatim>\<open>get\<close> returned before the \<^verbatim>\<open>reset\<close>.
\<close>

theorem reset_zeroes_counters:
  "tp (reset m) = replicate (label_num m) 0 \<and> denom (reset m) = replicate (label_num m) 0 \<and>
   mean_iou (label_num m) (tp (reset m)) (denom (reset m)) = 0 \<and>
   sum_metric (reset m) = sum_metric m \<and> num_inst (reset m) = num_inst m \<and>
   get (reset m) = get m"
  using mean_iou_zero[of "label_num m"] get_reset[of m] by (simp add: reset_def)

theorem reset_zeroes_counters_witness:
  "tp (reset after_first_pass) = replicate 19 0 \<and>
   mean_iou 19 (tp (reset after_first_pass)) (denom (reset after_first_pass)) = 0 \<and>
   get (reset after_first_pass) = get after_first_pass"
proof -
  have n: "label_num after_first_pass = 19" by (simp add: after_first_pass_def)
  from reset_zeroes_counters[of after_first_pass] show ?thesis unfolding n by blast
qed

subsection \<open>C8: the totals do not depend on the order\<close>

text \<open>
  C8: the running totals \<^verbatim>\<open>_tp[j]\<close> and \<^verbatim>\<open>_denom[j]\<close> after processing batches depend only
  on the samples processed, not on the order of the batches nor on the order or grouping
  of the samples in them. If a run over some batches returns, a run over the same batches
  in any other order returns as well, with the same totals; and any run from the same
  state over the same multiset of samples ends with the same totals.
\<close>

theorem totals_order_independent:
  assumes "run m bs = Inr m1"
  shows "(mset bs' = mset bs \<longrightarrow>
            (\<exists>m2. run m bs' = Inr m2 \<and> tp m2 = tp m1 \<and> denom m2 = denom m1)) \<and>
         (run m bs'' = Inr m3 \<and> mset (samples bs'') = mset (samples bs) \<longrightarrow>
            tp m3 = tp m1 \<and> denom m3 = denom m1)"
proof -
  have A: "\<exists>m2. run m bs' = Inr m2 \<and> tp m2 = tp m1 \<and> denom m2 = denom m1"
    if perm: "mset bs' = mset bs"
  proof -
    from perm have "set bs' = set bs" by (rule mset_eq_setD)
    with assms run_succeeds_iff[of m bs] run_succeeds_iff[of m bs']
    obtain m2 where r2: "run m bs' = Inr m2" by blast
    from totals_same_samples[OF r2 assms mset_samples_perm[OF perm]] r2
    show ?thesis by blast
  qed
  have B: "tp m3 = tp m1 \<and> denom m3 = denom m1"
    if "run m bs'' = Inr m3" and "mset (samples bs'') = mset (samples bs)"
    using totals_same_samples[OF that(1) assms that(2)] .
  from A B show ?thesis by blast
qed

theorem totals_order_independent_witness:
  "run (IoUMetric_init 255 19) two_batches = Inr two_classes_hit \<and>
   mset (rev two_batches) = mset two_batches \<and>
   (\<exists>m2. run (IoUMetric_init 255 19) (rev two_batches) = Inr m2 \<and>
      tp m2 = tp two_classes_hit \<and> denom m2 = denom two_classes_hit) \<and>
   run (IoUMetric_init 255 19) regrouped = Inr two_classes_hit \<and>
   mset (samples regrouped) = mset (samples two_batches) \<and>
   tp two_classes_hit = 1 # 1 # replicate 17 0"
proof -
  have a: "run (IoUMetric_init 255 19) two_batches = Inr two_classes_hit"
    by code_simp
  have b: "run (IoUMetric_init 255 19) regrouped = Inr two_classes_hit"
    by code_simp
  have c: "mset (samples regrouped) = mset (samples two_batches)"
    by (simp add: samples_def two_batches_def regrouped_def)
  have d: "mset (rev two_batches) = mset two_batches"
    by simp
  have e: "tp two_classes_hit = 1 # 1 # replicate 17 0"
    by (simp add: two_classes_hit_def)
  from totals_order_independent[OF a, of "rev two_batches" regrouped two_classes_hit] a b c d e
  show ?thesis by blast
qed

subsection \<open>C9: the records of a matched pair\<close>

text \<open>
  C9: for the \<open>i\<close>-th matched pair (counted from 1, in sorted order of the image paths) the
  builder emits the 7 records \<open>(str(i), image path, label path, "512", str(256 * k))\<close> for
  \<open>k = 1, \<dots>, 7\<close>, in this order, so the crop heights are 256, 512, \<dots>, 1792; every
  record is written as its five fields separated by tabs and ended by a newline.
\<close>

theorem builder_records:
  "build_val_lst isfile data_dir label_dir globbed =
     concat (map (\<lambda>(i, p). map (\<lambda>k. [str_nat i, p, label_path data_dir label_dir p, ''512'', str_nat (256 * k)])
                              [1..<8])
       (zip [1..<Suc (length (matched isfile data_dir label_dir globbed))]
            (matched isfile data_dir label_dir globbed))) \<and>
   map (\<lambda>k. str_nat (256 * k)) [1..<8] =
     [''256'', ''512'', ''768'', ''1024'', ''1280'', ''1536'', ''1792''] \<and>
   write_val_lst (build_val_lst isfile data_dir label_dir globbed) =
     concat (map (\<lambda>r. r ! 0 @ [CHR 0x09] @ r ! 1 @ [CHR 0x09] @ r ! 2 @ [CHR 0x09] @ r ! 3 @ [CHR 0x09] @ r ! 4
                        @ [CHR 0x0A])
       (build_val_lst isfile data_dir label_dir globbed))"
proof -
  let ?ms = "matched isfile data_dir label_dir globbed"
  have recs: "build_val_lst isfile data_dir label_dir globbed =
     concat (map (\<lambda>(i, p). map (\<lambda>k. [str_nat i, p, label_path data_dir label_dir p, ''512'', str_nat (256 * k)])
                              [1..<8])
       (zip [1..<Suc (length ?ms)] ?ms))"
    unfolding build_val_lst_eq by (simp only: records_of_eq)
  have heights: "map (\<lambda>k. str_nat (256 * k)) [1..<8] =
     [''256'', ''512'', ''768'', ''1024'', ''1280'', ''1536'', ''1792'']"
    by code_simp
  have five: "\<forall>r\<in>set (build_val_lst isfile data_dir label_dir globbed). \<exists>a b c d e. r = [a, b, c, d, e]"
    unfolding build_val_lst_eq by (auto simp: records_of_def)
  have "map (\<lambda>line. join [CHR 0x09] line @ [CHR 0x0A]) (build_val_lst isfile data_dir label_dir globbed) =
        map (\<lambda>r. r ! 0 @ [CHR 0x09] @ r ! 1 @ [CHR 0x09] @ r ! 2 @ [CHR 0x09] @ r ! 3 @ [CHR 0x09] @ r ! 4
                        @ [CHR 0x0A]) (build_val_lst isfile data_dir label_dir globbed)"
    by (rule map_cong) (use five in auto)
  then have out: "write_val_lst (build_val_lst isfile data_dir label_dir globbed) =
     concat (map (\<lambda>r. r ! 0 @ [CHR 0x09] @ r ! 1 @ [CHR 0x09] @ r ! 2 @ [CHR 0x09] @ r ! 3 @ [CHR 0x09] @ r ! 4
                        @ [CHR 0x0A])
       (build_val_lst isfile data_dir label_dir globbed))"
    by (simp only: write_val_lst_def)
  from recs heights out show ?thesis by blast
qed

theorem builder_records_witness:
  "matched demo_isfile ''img'' ''lab'' demo_glob = [''img/x/a_leftImg8bit.png''] \<and>
   label_path ''img'' ''lab'' ''img/x/a_leftImg8bit.png'' = ''lab/x/a_gtFine_labelIds.png'' \<and>
   build_val_lst demo_isfile ''img'' ''lab'' demo_glob =
     concat (map (\<lambda>(i, p). map (\<lambda>k. [str_nat i, p, label_path ''img'' ''lab'' p, ''512'', str_nat (256 * k)])
                              [1..<8])
       (zip [1..<Suc (length (matched demo_isfile ''img'' ''lab'' demo_glob))]
            (matched demo_isfile ''img'' ''lab'' demo_glob))) \<and>
   write_val_lst (build_val_lst demo_isfile ''img'' ''lab'' demo_glob) =
     concat (map (\<lambda>r. r ! 0 @ [CHR 0x09] @ r ! 1 @ [CHR 0x09] @ r ! 2 @ [CHR 0x09] @ r ! 3 @ [CHR 0x09] @ r ! 4
                        @ [CHR 0x0A])
       (build_val_lst demo_isfile ''img'' ''lab'' demo_glob))"
proof -
  have m: "matched demo_isfile ''img'' ''lab'' demo_glob = [''img/x/a_leftImg8bit.png'']"
    by code_simp
  have l: "label_path ''img'' ''lab'' ''img/x/a_leftImg8bit.png'' = ''lab/x/a_gtFine_labelIds.png''"
    by code_simp
  from builder_records[of demo_isfile "''img''" "''lab''" demo_glob] m l show ?thesis
    by blast
qed

subsection \<open>C10: what reset leaves alone\<close>

text \<open>
  C10: \<^verbatim>\<open>reset\<close> writes \<^verbatim>\<open>_tp\<close> and \<^verbatim>\<open>_denom\<close> only; \<^verbatim>\<open>sum_metric\<close> and \<^verbatim>\<open>num_inst\<close> keep
  their values, so \<^verbatim>\<open>get\<close> returns after a \<^verbatim>\<open>reset\<close> what it returned before it. In a state
  reached by an \<^verbatim>\<open>update\<close> that processed a sample, this is the mean computed from the
  counters held before the \<^verbatim>\<open>reset\<close>.
\<close>

theorem reset_keeps_value:
  "sum_metric (reset m) = sum_metric m \<and> num_inst (reset m) = num_inst m \<and>
   ignore_label (reset m) = ignore_label m \<and> label_num (reset m) = label_num m \<and>
   get (reset m) = get m \<and>
   (update m0 labels preds = Inr m \<and> labels \<noteq> [] \<longrightarrow>
      get (reset m) = Inr (Num (mean_iou (label_num m) (tp m) (denom m))))"
proof -
  have frame: "sum_metric (reset m) = sum_metric m \<and> num_inst (reset m) = num_inst m \<and>
   ignore_label (reset m) = ignore_label m \<and> label_num (reset m) = label_num m \<and>
   get (reset m) = get m"
    using get_reset[of m] by (simp add: reset_def)
  have "get (reset m) = Inr (Num (mean_iou (label_num m) (tp m) (denom m)))"
    if u: "update m0 labels preds = Inr m" and ne: "labels \<noteq> []"
  proof -
    from update_Inr[OF u] have len: "length labels = length preds"
      and loop: "update_loop m0 (zip labels preds) = Inr m" by simp_all
    from len ne have "zip labels preds \<noteq> []" by (cases labels; cases preds) auto
    with update_loop_synced[OF loop] have "synced m" by simp
    with get_synced frame show ?thesis by simp
  qed
  with frame show ?thesis by blast
qed

theorem reset_keeps_value_witness:
  "update (IoUMetric_init 255 19) [px 0] [px 0] = Inr after_first_pass \<and> [px 0] \<noteq> [] \<and>
   get (reset after_first_pass) = get after_first_pass \<and>
   get (reset after_first_pass) =
     Inr (Num (mean_iou (label_num after_first_pass) (tp after_first_pass) (denom after_first_pass)))"
proof -
  have u: "update (IoUMetric_init 255 19) [px 0] [px 0] = Inr after_first_pass"
    by code_simp
  have ne: "[px 0] \<noteq> []" by simp
  from reset_keeps_value[of after_first_pass "IoUMetric_init 255 19" "[px 0]" "[px 0]"] u ne
  show ?thesis by blast
qed

end
